theory Spec2Isabelle
  imports Main
begin

section \<open>The WebRTC broadcast client (client.js) as an event-driven state machine\<close>

text \<open>
  The script keeps three module-level variables (\<open>pc\<close>, \<open>dc\<close>, \<open>dcInterval\<close>) and reacts
  to button clicks, promise settlements, DOM events and timers. JavaScript runs one task
  at a time, so every function of the script is a state transformer; a promise callback
  runs in the task that settles its promise. The objects the browser owns (peer
  connections, data channels, timers) live in an explicit store indexed by identity, so
  that the difference between "the object a callback was registered on" and "the object
  the global variable points to now" is visible.
\<close>

subsection \<open>Values\<close>

type_synonym pc_id = nat
type_synonym dc_id = nat
type_synonym timer_id = nat
type_synonym chain_id = nat
type_synonym stream_id = nat

datatype gathering = GatherNew | Gathering | GatherComplete

datatype conn_state =
  ConnNew | Connecting | Connected | Disconnected | ConnFailed | ConnClosed

datatype ready_state = ChConnecting | ChOpen | ChClosing | ChClosed

datatype sdp_type = Offer | Answer

record description =
  sdp_kind :: sdp_type
  sdp :: string

text \<open>
  A JavaScript exception: its name and message. \<open>error_text\<close> is what \<open>`${e}`\<close> prints
  (\<open>Error.prototype.toString\<close>): the message alone when the name is empty, the name
  alone when the message is empty, and otherwise both, separated by a colon.
\<close>

datatype js_error = JsError string string

fun error_text :: "js_error \<Rightarrow> string" where
  "error_text (JsError name message) =
     (if name = [] then message
      else if message = [] then name
      else name @ '': '' @ message)"

definition null_deref :: js_error where
  "null_deref = JsError ''TypeError'' ''Cannot read properties of null''"

definition invalid_state :: js_error where
  "invalid_state = JsError ''InvalidStateError'' ''RTCDataChannel.readyState is not open''"

definition send_failed :: js_error where
  "send_failed = JsError ''OperationError'' ''RTCDataChannel send queue is full''"

definition json_syntax :: js_error where
  "json_syntax = JsError ''SyntaxError'' ''Unexpected token in JSON''"

definition not_a_description :: js_error where
  "not_a_description = JsError ''TypeError'' ''Failed to read the type property from RTCSessionDescriptionInit''"

definition not_a_function :: js_error where
  "not_a_function = JsError ''TypeError'' ''evt.data.substring is not a function''"

text \<open>
  The body of an HTTP response as \<open>response.json()\<close> sees it: not JSON at all, JSON with
  the shape of a session description, or some other JSON value.
\<close>

datatype json_body = Unparsable | JsonDescription description | JsonOther string

record response =
  status :: nat
  body :: json_body

definition response_ok :: "response \<Rightarrow> bool" where
  "response_ok r = (200 \<le> status r \<and> status r < 300)"

subsection \<open>Browser objects\<close>

datatype ev_type = ConnectionStateChange | Track | IceGatheringStateChange

text \<open>
  The three functions the script registers with \<open>addEventListener\<close>: the two arrow
  functions of \<open>start\<close>, and the \<open>checkState\<close> closure of one run of \<open>negotiate\<close>.
\<close>

datatype listener = ConnStateListener | TrackListener | CheckState chain_id

datatype dom_event =
  ConnectionStateChangeEv
| IceGatheringStateChangeEv
| TrackEv string "stream_id list"

fun ev_type_of :: "dom_event \<Rightarrow> ev_type" where
  "ev_type_of ConnectionStateChangeEv = ConnectionStateChange"
| "ev_type_of IceGatheringStateChangeEv = IceGatheringStateChange"
| "ev_type_of (TrackEv kind streams) = Track"

text \<open>
  An \<open>RTCPeerConnection\<close>. Listeners added with \<open>addEventListener\<close> are kept in
  \<open>listeners\<close>; the event-handler attributes \<open>ontrack\<close>, \<open>onicegatheringstatechange\<close> and
  \<open>onconnectionstatechange\<close> are separate slots, as in the DOM.
\<close>

record peer_connection =
  iceGatheringState :: gathering
  connectionState :: conn_state
  localDescription :: "description option"
  remoteDescription :: "description option"
  listeners :: "(ev_type \<times> listener) list"
  ontrack :: "listener option"
  onicegatheringstatechange :: "listener option"
  onconnectionstatechange :: "listener option"
  is_closed :: bool

definition new_peer_connection :: peer_connection where
  "new_peer_connection =
     \<lparr>iceGatheringState = GatherNew, connectionState = ConnNew,
      localDescription = None, remoteDescription = None, listeners = [],
      ontrack = None, onicegatheringstatechange = None, onconnectionstatechange = None,
      is_closed = False\<rparr>"

text \<open>An \<open>RTCDataChannel\<close>; \<open>owner\<close> is the connection that created it.\<close>

record data_channel =
  label :: string
  readyState :: ready_state
  owner :: pc_id

definition no_channel :: data_channel where
  "no_channel = \<lparr>label = [], readyState = ChClosed, owner = 0\<rparr>"

text \<open>Where one run of \<open>negotiate\<close> (one promise chain) is suspended.\<close>

datatype neg_stage =
  NotStarted
| AwaitCreateOffer pc_id
| AwaitSetLocal pc_id description
| AwaitGathering
| AwaitFetch description
| AwaitJson response
| AwaitSetRemote pc_id json_body
| NegDone
| NegFailed

text \<open>
  Calls into the browser, in the order the script makes them, and the moments at which
  a run of \<open>negotiate\<close> has read \<open>complete\<close> from the \<open>iceGatheringState\<close> of a connection
  and resolves its wait (\<open>GatheringCompleteSeen\<close>, with the connection read).
\<close>

datatype action =
  CreateOfferCall chain_id pc_id
| SetLocalCall chain_id pc_id
| GatheringCompleteSeen chain_id pc_id
| FetchCall chain_id description
| JsonCall chain_id
| SetRemoteCall chain_id pc_id
| NegotiationDone chain_id
| NegotiationFailed chain_id
| SetIntervalCall timer_id
| ClearIntervalCall timer_id
| SetTimeoutCall
| DcSendCall dc_id string
| DcCloseCall dc_id
| PcCloseCall pc_id

subsection \<open>The state\<close>

record state =
  pc :: "pc_id option"
  dc :: "dc_id option"
  dcInterval :: "timer_id option"
  startButton_disabled :: bool
  requestFrameButton_disabled :: bool
  stopButton_disabled :: bool
  video_srcObject :: "stream_id option"
  logs :: "string list"
  alerts :: "string list"
  uncaught :: "js_error list"
  pcs :: "pc_id \<Rightarrow> peer_connection"
  next_pc :: nat
  dcs :: "dc_id \<Rightarrow> data_channel"
  next_dc :: nat
  intervals :: "timer_id set"
  next_timer :: nat
  pending_closes :: nat
  chains :: "chain_id \<Rightarrow> neg_stage"
  next_chain :: nat
  sent :: "(dc_id \<times> string) list"
  trace :: "action list"

text \<open>
  The page as loaded: no session, the Start button enabled, the other two disabled
  (the last two lines of the script). Timer identifiers are positive, so that
  \<open>if (dcInterval)\<close> is the test "\<open>dcInterval\<close> is not null".
\<close>

definition init :: state where
  "init =
     \<lparr>pc = None, dc = None, dcInterval = None,
      startButton_disabled = False, requestFrameButton_disabled = True,
      stopButton_disabled = True, video_srcObject = None,
      logs = [], alerts = [], uncaught = [],
      pcs = (\<lambda>p. new_peer_connection), next_pc = 0,
      dcs = (\<lambda>d. no_channel), next_dc = 0,
      intervals = {}, next_timer = 1, pending_closes = 0,
      chains = (\<lambda>c. NotStarted), next_chain = 0,
      sent = [], trace = []\<rparr>"

subsection \<open>Logging, alerts, uncaught exceptions\<close>

text \<open>
  \<open>log\<close> appends one line to the log element. The line's time-of-day prefix comes from
  the wall clock and is left out: \<open>logs\<close> holds the messages, in order. An exception
  that nothing in the script catches ends the running task and is recorded in
  \<open>uncaught\<close>; \<open>called\<close> records a call into the browser in \<open>trace\<close>.
\<close>

definition log :: "string \<Rightarrow> state \<Rightarrow> state" where
  "log message s = s\<lparr>logs := logs s @ [message]\<rparr>"

definition alert :: "string \<Rightarrow> state \<Rightarrow> state" where
  "alert message s = s\<lparr>alerts := alerts s @ [message]\<rparr>"

definition throw :: "js_error \<Rightarrow> state \<Rightarrow> state" where
  "throw e s = s\<lparr>uncaught := uncaught s @ [e]\<rparr>"

definition called :: "action \<Rightarrow> state \<Rightarrow> state" where
  "called a s = s\<lparr>trace := trace s @ [a]\<rparr>"

definition quote :: string where
  "quote = [CHR 0x27]"

fun conn_state_name :: "conn_state \<Rightarrow> string" where
  "conn_state_name ConnNew = ''new''"
| "conn_state_name Connecting = ''connecting''"
| "conn_state_name Connected = ''connected''"
| "conn_state_name Disconnected = ''disconnected''"
| "conn_state_name ConnFailed = ''failed''"
| "conn_state_name ConnClosed = ''closed''"

subsection \<open>Browser operations the script calls\<close>

definition update_pc :: "pc_id \<Rightarrow> (peer_connection \<Rightarrow> peer_connection) \<Rightarrow> state \<Rightarrow> state" where
  "update_pc p f s = s\<lparr>pcs := (pcs s)(p := f (pcs s p))\<rparr>"

definition update_dc :: "dc_id \<Rightarrow> (data_channel \<Rightarrow> data_channel) \<Rightarrow> state \<Rightarrow> state" where
  "update_dc d f s = s\<lparr>dcs := (dcs s)(d := f (dcs s d))\<rparr>"

text \<open>\<open>addEventListener\<close> ignores a listener that is already registered for the type.\<close>

definition addEventListener :: "pc_id \<Rightarrow> ev_type \<Rightarrow> listener \<Rightarrow> state \<Rightarrow> state" where
  "addEventListener p ty l s =
     update_pc p (\<lambda>obj. if (ty, l) \<in> set (listeners obj) then obj
                      else obj\<lparr>listeners := listeners obj @ [(ty, l)]\<rparr>) s"

definition removeEventListener :: "pc_id \<Rightarrow> ev_type \<Rightarrow> listener \<Rightarrow> state \<Rightarrow> state" where
  "removeEventListener p ty l s =
     update_pc p (\<lambda>obj. obj\<lparr>listeners := removeAll (ty, l) (listeners obj)\<rparr>) s"

definition setInterval :: "state \<Rightarrow> timer_id \<times> state" where
  "setInterval s =
     (next_timer s,
      called (SetIntervalCall (next_timer s))
        (s\<lparr>intervals := insert (next_timer s) (intervals s), next_timer := Suc (next_timer s)\<rparr>))"

definition clearInterval :: "timer_id \<Rightarrow> state \<Rightarrow> state" where
  "clearInterval t s = called (ClearIntervalCall t) (s\<lparr>intervals := intervals s - {t}\<rparr>)"

text \<open>The only \<open>setTimeout\<close> of the script schedules the deferred close of \<open>stop\<close>.\<close>

definition setTimeout_close :: "state \<Rightarrow> state" where
  "setTimeout_close s = called SetTimeoutCall (s\<lparr>pending_closes := Suc (pending_closes s)\<rparr>)"

text \<open>
  \<open>RTCDataChannel.close()\<close> starts the closing procedure. \<open>RTCPeerConnection.close()\<close>
  closes at once: it sets \<open>connectionState\<close> to closed and, in the call itself, the
  \<open>readyState\<close> of every data channel of the connection to closed.
\<close>

definition dc_close :: "dc_id \<Rightarrow> state \<Rightarrow> state" where
  "dc_close d s =
     called (DcCloseCall d)
       (update_dc d (\<lambda>ch. if readyState ch = ChClosed then ch
                          else ch\<lparr>readyState := ChClosing\<rparr>) s)"

definition close_channels_of :: "pc_id \<Rightarrow> (dc_id \<Rightarrow> data_channel) \<Rightarrow> dc_id \<Rightarrow> data_channel" where
  "close_channels_of p chs =
     (\<lambda>d. if owner (chs d) = p then (chs d)\<lparr>readyState := ChClosed\<rparr> else chs d)"

definition pc_close :: "pc_id \<Rightarrow> state \<Rightarrow> state" where
  "pc_close p s =
     called (PcCloseCall p)
       (update_pc p (\<lambda>obj. obj\<lparr>is_closed := True, connectionState := ConnClosed\<rparr>)
          (s\<lparr>dcs := close_channels_of p (dcs s)\<rparr>))"

text \<open>
  \<open>RTCDataChannel.send(message)\<close>: throws when the channel is not open; when it is
  open the transport either takes the message (\<open>accepted\<close>) or throws. The result is
  the exception thrown, if any, and the state.
\<close>

definition dc_send :: "dc_id \<Rightarrow> string \<Rightarrow> bool \<Rightarrow> state \<Rightarrow> js_error option \<times> state" where
  "dc_send d message accepted s =
     (let s1 = called (DcSendCall d message) s in
      if readyState (dcs s1 d) \<noteq> ChOpen then (Some invalid_state, s1)
      else if accepted then (None, s1\<lparr>sent := sent s1 @ [(d, message)]\<rparr>)
      else (Some send_failed, s1))"

subsection \<open>Strings and numbers in messages\<close>

text \<open>
  A \<open>string\<close> is a list of UTF-16 code units below 256; a \<open>char\<close> is its own code unit.
  \<open>'ping ' + Date.now()\<close> prints the clock, a non-negative integer, in decimal.
\<close>

definition digit_char :: "nat \<Rightarrow> char" where
  "digit_char n = char_of (48 + n)"

function decimal :: "nat \<Rightarrow> string" where
  "decimal n = (if n < 10 then [digit_char n] else decimal (n div 10) @ [digit_char (n mod 10)])"
  by pat_completeness auto
termination
  by (relation "measure id") auto

declare decimal.simps [simp del]

text \<open>
  A JavaScript number is an IEEE double. Integers of magnitude up to \<open>2^53\<close> are doubles,
  and a difference of two of them of magnitude up to \<open>2^53\<close> is computed exactly; such
  values are \<open>Num\<close>. A value beyond that range is rounded (and \<open>parseInt\<close> may
  approximate a long digit string before rounding it): it is \<open>Inexact\<close>, a number this
  model does not determine, and so is the result of arithmetic on it.
\<close>

datatype js_number = NaN | Num int | Inexact

definition exact_int :: "int \<Rightarrow> js_number" where
  "exact_int v = (if \<bar>v\<bar> \<le> 2 ^ 53 then Num v else Inexact)"

fun js_minus :: "js_number \<Rightarrow> js_number \<Rightarrow> js_number" where
  "js_minus NaN y = NaN"
| "js_minus x NaN = NaN"
| "js_minus (Num x) (Num y) = exact_int (x - y)"
| "js_minus x y = Inexact"

text \<open>
  \<open>parseInt(str, 10)\<close> skips leading white space (tab, line feed, vertical tab, form
  feed, carriage return, space, no-break space: the white space among the code units
  below 256), reads an optional sign and the longest run of decimal digits, and is
  \<open>NaN\<close> when there is no digit.
\<close>

definition is_digit :: "char \<Rightarrow> bool" where
  "is_digit c = (48 \<le> (of_char c :: nat) \<and> (of_char c :: nat) \<le> 57)"

definition digit_val :: "char \<Rightarrow> nat" where
  "digit_val c = (of_char c :: nat) - 48"

definition is_space :: "char \<Rightarrow> bool" where
  "is_space c = ((of_char c :: nat) \<in> {9, 10, 11, 12, 13, 32, 160})"

definition digits_value :: "string \<Rightarrow> nat" where
  "digits_value z = foldl (\<lambda>a c. 10 * a + digit_val c) 0 z"

definition parseInt :: "string \<Rightarrow> js_number" where
  "parseInt str =
     (let s = dropWhile is_space str;
          negative = (case s of [] \<Rightarrow> False | c # r \<Rightarrow> c = CHR ''-'');
          s1 = (case s of [] \<Rightarrow> s | c # r \<Rightarrow> if c = CHR ''-'' \<or> c = CHR ''+'' then r else s);
          z = takeWhile is_digit s1
      in if z = [] then NaN
         else exact_int ((if negative then - 1 else 1) * int (digits_value z)))"

subsection \<open>Stop Connection\<close>

text \<open>The four guarded blocks of \<open>stop\<close>, in the order of the source.\<close>

definition stop_interval :: "state \<Rightarrow> state" where
  "stop_interval s =
     (case dcInterval s of
        Some t \<Rightarrow> log ''DataChannel ping interval stopped'' ((clearInterval t s)\<lparr>dcInterval := None\<rparr>)
      | None \<Rightarrow> s)"

definition stop_channel :: "state \<Rightarrow> state" where
  "stop_channel s =
     (case dc s of
        Some d \<Rightarrow> (dc_close d (log ''Closing DataChannel'' s))\<lparr>dc := None\<rparr>
      | None \<Rightarrow> s)"

text \<open>
  The three assignments \<open>pc.ontrack = null\<close>, \<open>pc.onicegatheringstatechange = null\<close>,
  \<open>pc.onconnectionstatechange = null\<close>.
\<close>

definition clear_handler_attributes :: "pc_id \<Rightarrow> state \<Rightarrow> state" where
  "clear_handler_attributes p s =
     update_pc p (\<lambda>obj. obj\<lparr>ontrack := None, onicegatheringstatechange := None,
                             onconnectionstatechange := None\<rparr>) s"

definition stop_connection :: "state \<Rightarrow> state" where
  "stop_connection s =
     (case pc s of
        Some p \<Rightarrow> setTimeout_close (clear_handler_attributes p (log ''Closing PeerConnection'' s))
      | None \<Rightarrow> s)"

definition stop :: "state \<Rightarrow> state" where
  "stop s =
     (let s1 = log ''Stop connection button clicked / Starting stop process'' s;
          s2 = s1\<lparr>startButton_disabled := False, stopButton_disabled := True,
                  requestFrameButton_disabled := True\<rparr>;
          s3 = stop_interval s2;
          s4 = stop_channel s3;
          s5 = stop_connection s4;
          s6 = log ''Video element reset'' (s5\<lparr>video_srcObject := None\<rparr>)
      in log ''Stop process complete'' s6)"

text \<open>The callback of the \<open>setTimeout\<close> in \<open>stop\<close>, run 500 ms later.\<close>

definition deferred_close :: "state \<Rightarrow> state" where
  "deferred_close s =
     (case pc s of
        Some p \<Rightarrow> log ''PeerConnection close complete'' ((pc_close p s)\<lparr>pc := None\<rparr>)
      | None \<Rightarrow> s)"

subsection \<open>WebRTC Negotiation\<close>

text \<open>
  \<open>negotiate\<close> builds one promise chain. Each \<open>then_\<close> function below is one callback of
  the chain; it runs when the promise before it is fulfilled. An exception thrown in a
  callback, and a rejection of any awaited promise, reach the final \<open>catch\<close>.
\<close>

definition neg_catch :: "chain_id \<Rightarrow> js_error \<Rightarrow> state \<Rightarrow> state" where
  "neg_catch c e s =
     (let s1 = called (NegotiationFailed c) (s\<lparr>chains := (chains s)(c := NegFailed)\<rparr>);
          s2 = log (''Negotiation failed: '' @ error_text e) s1;
          s3 = alert (''Negotiation failed: '' @ error_text e) s2
      in stop s3)"

definition negotiate :: "state \<Rightarrow> state" where
  "negotiate s0 =
     (let s = log ''Starting negotiation...'' s0 in
      case pc s of
        None \<Rightarrow> throw null_deref s
      | Some p \<Rightarrow>
          called (CreateOfferCall (next_chain s) p)
            (s\<lparr>chains := (chains s)(next_chain s := AwaitCreateOffer p),
               next_chain := Suc (next_chain s)\<rparr>))"

definition then_offer :: "chain_id \<Rightarrow> description \<Rightarrow> state \<Rightarrow> state" where
  "then_offer c offer s0 =
     (let s = log ''Offer creation successful'' s0 in
      case pc s of
        None \<Rightarrow> neg_catch c null_deref s
      | Some p \<Rightarrow> called (SetLocalCall c p) (s\<lparr>chains := (chains s)(c := AwaitSetLocal p offer)\<rparr>))"

definition then_gathered :: "chain_id \<Rightarrow> state \<Rightarrow> state" where
  "then_gathered c s0 =
     (let s = log ''ICE gathering complete, sending Offer to server'' s0 in
      case pc s of
        None \<Rightarrow> neg_catch c null_deref s
      | Some p \<Rightarrow>
          (case localDescription (pcs s p) of
             None \<Rightarrow> neg_catch c null_deref s
           | Some offer \<Rightarrow>
               called (FetchCall c \<lparr>sdp_kind = sdp_kind offer, sdp = sdp offer\<rparr>)
                 (s\<lparr>chains := (chains s)(c := AwaitFetch offer)\<rparr>)))"

text \<open>
  \<open>resolve()\<close>, called after \<open>complete\<close> has been read from connection \<open>p\<close>: the next
  callback of the chain runs in the same task.
\<close>

definition resolve_wait :: "chain_id \<Rightarrow> pc_id \<Rightarrow> state \<Rightarrow> state" where
  "resolve_wait c p s = then_gathered c (called (GatheringCompleteSeen c p) s)"

text \<open>
  The callback after \<open>setLocalDescription\<close>: the executor of the new promise resolves at
  once when gathering is already complete, and registers \<open>checkState\<close> otherwise.
\<close>

definition then_local :: "chain_id \<Rightarrow> state \<Rightarrow> state" where
  "then_local c s0 =
     (let s = log ''Local Description setting successful'' s0 in
      case pc s of
        None \<Rightarrow> neg_catch c null_deref s
      | Some p \<Rightarrow>
          if iceGatheringState (pcs s p) = GatherComplete then resolve_wait c p s
          else addEventListener p IceGatheringStateChange (CheckState c)
                 (s\<lparr>chains := (chains s)(c := AwaitGathering)\<rparr>))"

text \<open>
  \<open>checkState\<close> reads the global \<open>pc\<close>, not the connection it was registered on.
  \<open>resolve()\<close> has an effect only the first time.
\<close>

definition checkState :: "chain_id \<Rightarrow> state \<Rightarrow> state" where
  "checkState c s =
     (case pc s of
        None \<Rightarrow> throw null_deref s
      | Some p \<Rightarrow>
          if iceGatheringState (pcs s p) = GatherComplete then
            (let s1 = removeEventListener p IceGatheringStateChange (CheckState c) s in
             if chains s1 c = AwaitGathering then resolve_wait c p s1 else s1)
          else s)"

definition then_response :: "chain_id \<Rightarrow> response \<Rightarrow> state \<Rightarrow> state" where
  "then_response c r s0 =
     (let s = log ''Received Answer from server'' s0 in
      called (JsonCall c) (s\<lparr>chains := (chains s)(c := AwaitJson r)\<rparr>))"

definition then_answer :: "chain_id \<Rightarrow> json_body \<Rightarrow> state \<Rightarrow> state" where
  "then_answer c answer s0 =
     (let s = log ''Answer setting started'' s0 in
      case pc s of
        None \<Rightarrow> neg_catch c null_deref s
      | Some p \<Rightarrow> called (SetRemoteCall c p) (s\<lparr>chains := (chains s)(c := AwaitSetRemote p answer)\<rparr>))"

definition then_remote :: "chain_id \<Rightarrow> state \<Rightarrow> state" where
  "then_remote c s0 =
     (let s = log ''Remote Description setting successful, establishing connection'' s0 in
      called (NegotiationDone c) (s\<lparr>chains := (chains s)(c := NegDone)\<rparr>))"

subsection \<open>Settlement of the awaited promises\<close>

text \<open>
  The browser settles the promise a chain is waiting for; the outcome is the
  environment's. A fulfilled \<open>setLocalDescription\<close> or \<open>setRemoteDescription\<close> has stored
  the description in the connection the call was made on.
\<close>

definition offer_settled :: "chain_id \<Rightarrow> js_error + description \<Rightarrow> state \<Rightarrow> state" where
  "offer_settled c r s =
     (case chains s c of
        AwaitCreateOffer p \<Rightarrow>
          (case r of Inl e \<Rightarrow> neg_catch c e s | Inr offer \<Rightarrow> then_offer c offer s)
      | _ \<Rightarrow> s)"

definition local_settled :: "chain_id \<Rightarrow> js_error option \<Rightarrow> state \<Rightarrow> state" where
  "local_settled c r s =
     (case chains s c of
        AwaitSetLocal p offer \<Rightarrow>
          (case r of
             Some e \<Rightarrow> neg_catch c e s
           | None \<Rightarrow> then_local c (update_pc p (\<lambda>obj. obj\<lparr>localDescription := Some offer\<rparr>) s))
      | _ \<Rightarrow> s)"

definition fetch_settled :: "chain_id \<Rightarrow> js_error + response \<Rightarrow> state \<Rightarrow> state" where
  "fetch_settled c r s =
     (case chains s c of
        AwaitFetch offer \<Rightarrow>
          (case r of Inl e \<Rightarrow> neg_catch c e s | Inr resp \<Rightarrow> then_response c resp s)
      | _ \<Rightarrow> s)"

text \<open>\<open>response.json()\<close> rejects exactly when the body is not JSON; it does not look at the status.\<close>

definition json_settled :: "chain_id \<Rightarrow> state \<Rightarrow> state" where
  "json_settled c s =
     (case chains s c of
        AwaitJson resp \<Rightarrow>
          (case body resp of
             Unparsable \<Rightarrow> neg_catch c json_syntax s
           | answer \<Rightarrow> then_answer c answer s)
      | _ \<Rightarrow> s)"

definition remote_settled :: "chain_id \<Rightarrow> js_error option \<Rightarrow> state \<Rightarrow> state" where
  "remote_settled c r s =
     (case chains s c of
        AwaitSetRemote p answer \<Rightarrow>
          (case r of
             Some e \<Rightarrow> neg_catch c e s
           | None \<Rightarrow>
               (case answer of
                  JsonDescription d \<Rightarrow>
                    then_remote c (update_pc p (\<lambda>obj. obj\<lparr>remoteDescription := Some d\<rparr>) s)
                | _ \<Rightarrow> neg_catch c not_a_description s))
      | _ \<Rightarrow> s)"

subsection \<open>Start Connection\<close>

text \<open>The \<open>connectionstatechange\<close> listener of \<open>start\<close>.\<close>

definition conn_listener :: "state \<Rightarrow> state" where
  "conn_listener s =
     (case pc s of
        None \<Rightarrow> throw null_deref s
      | Some p \<Rightarrow>
          (let st = connectionState (pcs s p);
               s1 = log (''Connection state changed: '' @ conn_state_name st) s in
           if st = Connected then
             (log ''Connection successful!'' s1)\<lparr>requestFrameButton_disabled := False\<rparr>
           else if st = ConnFailed \<or> st = ConnClosed \<or> st = Disconnected then
             stop (log ''Connection has been disconnected.'' s1)
           else s1))"

text \<open>
  The \<open>track\<close> listener of \<open>start\<close>. \<open>evt.streams[0]\<close> is the head of the event's streams;
  when there is none it is \<open>undefined\<close>, which the \<open>srcObject\<close> attribute takes as null.
\<close>

definition track_listener :: "string \<Rightarrow> stream_id list \<Rightarrow> state \<Rightarrow> state" where
  "track_listener kind streams s =
     (let s1 = log (''Remote track received: '' @ kind) s in
      if kind = ''video'' then
        (let s2 = log ''Adding video track to <video> element'' s1 in
         case streams of
           [] \<Rightarrow> s2\<lparr>video_srcObject := None\<rparr>
         | stream # _ \<Rightarrow> s2\<lparr>video_srcObject := Some stream\<rparr>)
      else s1)"

definition dc_onopen :: "state \<Rightarrow> state" where
  "dc_onopen s =
     (case dc s of
        None \<Rightarrow> throw null_deref s
      | Some d \<Rightarrow>
          (let s1 = log (''DataChannel '' @ quote @ label (dcs s d) @ quote @ '' open'') s;
               (t, s2) = setInterval s1
           in s2\<lparr>dcInterval := Some t\<rparr>))"

text \<open>
  One tick of the interval started in \<open>dc.onopen\<close>: the \<open>try\<close> block sends the ping,
  the \<open>catch\<close> block logs and stops the interval held in \<open>dcInterval\<close>.
\<close>

definition ping_tick :: "nat \<Rightarrow> bool \<Rightarrow> state \<Rightarrow> state" where
  "ping_tick now accepted s =
     (let message = ''ping '' @ decimal now;
          (thrown, s1) = (case dc s of
                            None \<Rightarrow> (Some null_deref, s)
                          | Some d \<Rightarrow> dc_send d message accepted s)
      in case thrown of
           None \<Rightarrow> s1
         | Some e \<Rightarrow>
             (let s2 = log (''Ping send error: '' @ error_text e) s1 in
              case dcInterval s2 of
                Some t \<Rightarrow> (clearInterval t s2)\<lparr>dcInterval := None\<rparr>
              | None \<Rightarrow> s2))"

definition dc_onclose :: "state \<Rightarrow> state" where
  "dc_onclose s =
     (case dc s of
        None \<Rightarrow> throw null_deref s
      | Some d \<Rightarrow>
          (let s1 = log (''DataChannel '' @ quote @ label (dcs s d) @ quote @ '' closed'') s;
               s2 = (case dcInterval s1 of
                       Some t \<Rightarrow> (clearInterval t s1)\<lparr>dcInterval := None\<rparr>
                     | None \<Rightarrow> s1)
           in s2\<lparr>requestFrameButton_disabled := True\<rparr>))"

definition dc_onerror :: "string \<Rightarrow> state \<Rightarrow> state" where
  "dc_onerror err s =
     (case dc s of
        None \<Rightarrow> throw null_deref s
      | Some d \<Rightarrow> log (''DataChannel '' @ quote @ label (dcs s d) @ quote @ '' error: '' @ err) s)"

text \<open>
  What a message event carries: a string, or binary data (an \<open>ArrayBuffer\<close> or a
  \<open>Blob\<close>), which has no \<open>substring\<close> method.
\<close>

datatype payload = Text string | Binary

text \<open>
  \<open>dc.onmessage\<close> for a message arriving at clock \<open>now\<close>. The constant \<open>roundtrip\<close> of
  the source, \<open>Date.now() - parseInt(evt.data.substring(5), 10)\<close>, is computed and
  dropped.
\<close>

definition roundtrip :: "nat \<Rightarrow> string \<Rightarrow> js_number" where
  "roundtrip now data = js_minus (exact_int (int now)) (parseInt (drop 5 data))"

definition dc_onmessage :: "payload \<Rightarrow> nat \<Rightarrow> state \<Rightarrow> state" where
  "dc_onmessage message now s =
     (case message of
        Binary \<Rightarrow> throw not_a_function s
      | Text data \<Rightarrow>
          if take 4 data = ''pong'' then
            (let rtt = roundtrip now data in s)
          else
            (case dc s of
               None \<Rightarrow> throw null_deref s
             | Some d \<Rightarrow>
                 log (''Message from DataChannel '' @ quote @ label (dcs s d) @ quote @ '': '' @ data)
                   s))"

text \<open>
  \<open>start\<close>. A new connection gets the two listeners and the channel \<open>chat\<close>; the four
  handlers assigned to the channel are the functions above and stay assigned for the
  channel's life. \<open>addTransceiver\<close> changes nothing the script reads later.
\<close>

definition start :: "state \<Rightarrow> state" where
  "start s0 =
     (let s1 = log ''Start connection button clicked'' s0;
          s2 = s1\<lparr>startButton_disabled := True, stopButton_disabled := False\<rparr>;
          p = next_pc s2;
          s3 = s2\<lparr>pcs := (pcs s2)(p := new_peer_connection), next_pc := Suc p, pc := Some p\<rparr>;
          s4 = addEventListener p ConnectionStateChange ConnStateListener s3;
          s5 = addEventListener p Track TrackListener s4;
          d = next_dc s5;
          s6 = s5\<lparr>dcs := (dcs s5)(d := \<lparr>label = ''chat'', readyState = ChConnecting, owner = p\<rparr>),
                  next_dc := Suc d, dc := Some d\<rparr>;
          s7 = log (''DataChannel '' @ quote @ label (dcs s6 d) @ quote @ '' creation attempt'') s6
      in negotiate s7)"

subsection \<open>Request Frame\<close>

definition frame_request_refused :: "state \<Rightarrow> state" where
  "frame_request_refused s =
     alert ''DataChannel is not open. Please check the connection.''
       (log ''Frame request failed: DataChannel is not open'' s)"

definition requestFrame :: "bool \<Rightarrow> state \<Rightarrow> state" where
  "requestFrame accepted s =
     (case dc s of
        None \<Rightarrow> frame_request_refused s
      | Some d \<Rightarrow>
          if readyState (dcs s d) = ChOpen then
            (let s1 = log (''Sending frame request via DataChannel: '' @ quote @ ''send_frame'' @ quote) s;
                 (thrown, s2) = dc_send d ''send_frame'' accepted s1
             in case thrown of None \<Rightarrow> s2 | Some e \<Rightarrow> throw e s2)
          else frame_request_refused s)"

subsection \<open>Event dispatch and the task loop\<close>

definition run_listener :: "listener \<Rightarrow> dom_event \<Rightarrow> state \<Rightarrow> state" where
  "run_listener l ev s =
     (case l of
        ConnStateListener \<Rightarrow> conn_listener s
      | TrackListener \<Rightarrow>
          (case ev of TrackEv kind streams \<Rightarrow> track_listener kind streams s | _ \<Rightarrow> s)
      | CheckState c \<Rightarrow> checkState c s)"

text \<open>
  Firing an event at a connection runs the listeners registered for its type with
  \<open>addEventListener\<close>, and the function in the event-handler attribute if there is one.
\<close>

definition handlers_for :: "peer_connection \<Rightarrow> ev_type \<Rightarrow> listener list" where
  "handlers_for obj ty =
     map snd (filter (\<lambda>r. fst r = ty) (listeners obj)) @
     (case (case ty of
              ConnectionStateChange \<Rightarrow> onconnectionstatechange obj
            | Track \<Rightarrow> ontrack obj
            | IceGatheringStateChange \<Rightarrow> onicegatheringstatechange obj) of
        None \<Rightarrow> []
      | Some l \<Rightarrow> [l])"

definition dispatch :: "pc_id \<Rightarrow> dom_event \<Rightarrow> state \<Rightarrow> state" where
  "dispatch p ev s = fold (\<lambda>l. run_listener l ev) (handlers_for (pcs s p) (ev_type_of ev)) s"

text \<open>
  One task. A click reaches its handler only when the button is enabled. The browser
  fires events only at objects that exist, no event at a closed connection, an open
  event only at a connecting channel, a message only at an open channel, a tick only
  for a running interval, and a timeout only when one is pending. It updates the
  attribute an event reports (gathering state, connection state, ready state) before
  it fires the event. When the peer closes an open channel the channel is closing
  first (a change the script has no handler for) and closed later. A close event
  reaches a channel when it becomes closed; browsers differ on whether one also
  follows \<open>RTCPeerConnection.close()\<close>, which has closed the channel already, so a
  close event may arrive at a closed channel too. The flag of a frame-request click
  and of a tick says whether the transport accepts the message; the number of a
  message and of a tick is the clock.
\<close>

datatype event =
  ClickStart
| ClickRequestFrame bool
| ClickStop
| OfferSettled chain_id "js_error + description"
| LocalSettled chain_id "js_error option"
| FetchSettled chain_id "js_error + response"
| JsonSettled chain_id
| RemoteSettled chain_id "js_error option"
| GatheringChanged pc_id gathering
| ConnectionChanged pc_id conn_state
| TrackArrived pc_id string "stream_id list"
| ChannelOpened dc_id
| ChannelClosing dc_id
| ChannelClosed dc_id
| ChannelError dc_id string
| ChannelMessage dc_id payload nat
| IntervalTick timer_id nat bool
| TimeoutFired

definition live_pc :: "pc_id \<Rightarrow> state \<Rightarrow> bool" where
  "live_pc p s = (p < next_pc s \<and> \<not> is_closed (pcs s p))"

fun step :: "event \<Rightarrow> state \<Rightarrow> state" where
  "step ClickStart s = (if startButton_disabled s then s else start s)"
| "step (ClickRequestFrame accepted) s =
     (if requestFrameButton_disabled s then s else requestFrame accepted s)"
| "step ClickStop s = (if stopButton_disabled s then s else stop s)"
| "step (OfferSettled c r) s = offer_settled c r s"
| "step (LocalSettled c r) s = local_settled c r s"
| "step (FetchSettled c r) s = fetch_settled c r s"
| "step (JsonSettled c) s = json_settled c s"
| "step (RemoteSettled c r) s = remote_settled c r s"
| "step (GatheringChanged p g) s =
     (if live_pc p s then
        dispatch p IceGatheringStateChangeEv (update_pc p (\<lambda>obj. obj\<lparr>iceGatheringState := g\<rparr>) s)
      else s)"
| "step (ConnectionChanged p st) s =
     (if live_pc p s then
        dispatch p ConnectionStateChangeEv (update_pc p (\<lambda>obj. obj\<lparr>connectionState := st\<rparr>) s)
      else s)"
| "step (TrackArrived p kind streams) s =
     (if live_pc p s then dispatch p (TrackEv kind streams) s else s)"
| "step (ChannelOpened d) s =
     (if d < next_dc s \<and> readyState (dcs s d) = ChConnecting then
        dc_onopen (update_dc d (\<lambda>ch. ch\<lparr>readyState := ChOpen\<rparr>) s)
      else s)"
| "step (ChannelClosing d) s =
     (if d < next_dc s \<and> readyState (dcs s d) = ChOpen then
        update_dc d (\<lambda>ch. ch\<lparr>readyState := ChClosing\<rparr>) s
      else s)"
| "step (ChannelClosed d) s =
     (if d < next_dc s then dc_onclose (update_dc d (\<lambda>ch. ch\<lparr>readyState := ChClosed\<rparr>) s)
      else s)"
| "step (ChannelError d err) s = (if d < next_dc s then dc_onerror err s else s)"
| "step (ChannelMessage d message now) s =
     (if d < next_dc s \<and> readyState (dcs s d) = ChOpen then dc_onmessage message now s else s)"
| "step (IntervalTick t now accepted) s =
     (if t \<in> intervals s then ping_tick now accepted s else s)"
| "step TimeoutFired s =
     (if 0 < pending_closes s then deferred_close (s\<lparr>pending_closes := pending_closes s - 1\<rparr>)
      else s)"

fun run :: "event list \<Rightarrow> state \<Rightarrow> state" where
  "run [] s = s"
| "run (e # es) s = run es (step e s)"

section \<open>Notions used to state the properties\<close>

text \<open>
  The resources a session holds: the keepalive timer and the running intervals, the
  channel reference and the channels, the connection reference and the connections,
  the stream shown by the video element, and the three buttons. The log, the alerts
  and the number of scheduled deferred closes are left out.
\<close>

definition resources ::
  "state \<Rightarrow> (timer_id option \<times> timer_id set) \<times> (dc_id option \<times> (dc_id \<Rightarrow> data_channel))
     \<times> (pc_id option \<times> (pc_id \<Rightarrow> peer_connection)) \<times> stream_id option \<times> (bool \<times> bool \<times> bool)" where
  "resources s =
     ((dcInterval s, intervals s), (dc s, dcs s), (pc s, pcs s), video_srcObject s,
      (startButton_disabled s, requestFrameButton_disabled s, stopButton_disabled s))"

text \<open>All pending deferred closes fire.\<close>

definition drain :: "state \<Rightarrow> state" where
  "drain s = run (replicate (pending_closes s) TimeoutFired) s"

text \<open>
  What the two invariants below depend on: the channel reference, the handle, the
  running intervals, the channels, and whether Start can be clicked.
\<close>

definition chan_view ::
  "state \<Rightarrow> dc_id option \<times> timer_id option \<times> timer_id set \<times> (dc_id \<Rightarrow> data_channel) \<times> bool" where
  "chan_view s = (dc s, dcInterval s, intervals s, dcs s, startButton_disabled s)"

text \<open>The session has a channel, and the channel has been opened.\<close>

definition channel_was_opened :: "state \<Rightarrow> bool" where
  "channel_was_opened s =
     (case dc s of None \<Rightarrow> False | Some d \<Rightarrow> readyState (dcs s d) \<noteq> ChConnecting)"

text \<open>
  The handle is kept only while the session has a channel that has been opened, and
  it names a running interval.
\<close>

definition handle_ok :: "state \<Rightarrow> bool" where
  "handle_ok s =
     ((dcInterval s \<noteq> None \<longrightarrow> channel_was_opened s)
      \<and> (\<forall>t. dcInterval s = Some t \<longrightarrow> t \<in> intervals s))"

text \<open>
  Every channel other than the session's has been closed or is closing; Start is
  enabled only without a channel.
\<close>

definition channels_ok :: "state \<Rightarrow> bool" where
  "channels_ok s =
     ((\<forall>d. dc s \<noteq> Some d \<longrightarrow>
            readyState (dcs s d) = ChClosing \<or> readyState (dcs s d) = ChClosed)
      \<and> (\<not> startButton_disabled s \<longrightarrow> dc s = None))"

definition keepalive_ok :: "state \<Rightarrow> bool" where
  "keepalive_ok s = (handle_ok s \<and> channels_ok s)"

text \<open>
  The steps of one run of \<open>negotiate\<close>, read off the calls it makes: the offer is
  requested, the local description is submitted, gathering is seen complete, the
  request is sent, the body is read, the remote description is submitted; then the
  run has succeeded, or it has failed.
\<close>

datatype neg_step =
  CreateOffer | ApplyLocal | GatheringDone | SignalingRequest | SignalingBody | ApplyRemote
| Succeeded | Failed

fun chain_step :: "chain_id \<Rightarrow> action \<Rightarrow> neg_step option" where
  "chain_step c (CreateOfferCall c' p) = (if c = c' then Some CreateOffer else None)"
| "chain_step c (SetLocalCall c' p) = (if c = c' then Some ApplyLocal else None)"
| "chain_step c (GatheringCompleteSeen c' p) = (if c = c' then Some GatheringDone else None)"
| "chain_step c (FetchCall c' offer) = (if c = c' then Some SignalingRequest else None)"
| "chain_step c (JsonCall c') = (if c = c' then Some SignalingBody else None)"
| "chain_step c (SetRemoteCall c' p) = (if c = c' then Some ApplyRemote else None)"
| "chain_step c (NegotiationDone c') = (if c = c' then Some Succeeded else None)"
| "chain_step c (NegotiationFailed c') = (if c = c' then Some Failed else None)"
| "chain_step c (SetIntervalCall t) = None"
| "chain_step c (ClearIntervalCall t) = None"
| "chain_step c SetTimeoutCall = None"
| "chain_step c (DcSendCall d m) = None"
| "chain_step c (DcCloseCall d) = None"
| "chain_step c (PcCloseCall p) = None"

definition steps_in :: "chain_id \<Rightarrow> action list \<Rightarrow> neg_step list" where
  "steps_in c tr = List.map_filter (chain_step c) tr"

definition chain_steps :: "chain_id \<Rightarrow> state \<Rightarrow> neg_step list" where
  "chain_steps c s = steps_in c (trace s)"

definition negotiation_order :: "neg_step list" where
  "negotiation_order =
     [CreateOffer, ApplyLocal, GatheringDone, SignalingRequest, SignalingBody, ApplyRemote,
      Succeeded]"


fun stage_steps :: "neg_stage \<Rightarrow> neg_step list \<Rightarrow> bool" where
  "stage_steps NotStarted xs = (xs = [])"
| "stage_steps (AwaitCreateOffer p) xs = (xs = take 1 negotiation_order)"
| "stage_steps (AwaitSetLocal p offer) xs = (xs = take 2 negotiation_order)"
| "stage_steps AwaitGathering xs = (xs = take 2 negotiation_order)"
| "stage_steps (AwaitFetch offer) xs = (xs = take 4 negotiation_order)"
| "stage_steps (AwaitJson r) xs = (xs = take 5 negotiation_order)"
| "stage_steps (AwaitSetRemote p answer) xs = (xs = take 6 negotiation_order)"
| "stage_steps NegDone xs = (xs = negotiation_order)"
| "stage_steps NegFailed xs =
     (xs \<in> (\<lambda>k. take k negotiation_order @ [Failed]) ` {1, 2, 3, 4, 5, 6})"

definition chains_ok :: "state \<Rightarrow> bool" where
  "chains_ok s =
     ((\<forall>c. stage_steps (chains s c) (chain_steps c s))
      \<and> (\<forall>c. next_chain s \<le> c \<longrightarrow> chains s c = NotStarted))"


definition offer_at :: "state \<Rightarrow> description option" where
  "offer_at s = (case pc s of None \<Rightarrow> None | Some p \<Rightarrow> localDescription (pcs s p))"

text \<open>The part of the trace that belongs to the runs of \<open>negotiate\<close>.\<close>

fun is_neg_action :: "action \<Rightarrow> bool" where
  "is_neg_action (SetIntervalCall t) = False"
| "is_neg_action (ClearIntervalCall t) = False"
| "is_neg_action SetTimeoutCall = False"
| "is_neg_action (DcSendCall d m) = False"
| "is_neg_action (DcCloseCall d) = False"
| "is_neg_action (PcCloseCall p) = False"
| "is_neg_action a = True"

definition neg_trace :: "state \<Rightarrow> action list" where
  "neg_trace s = filter is_neg_action (trace s)"


text \<open>
  Connections are numbered below \<open>next_pc\<close>: the one \<open>pc\<close> names, and every one a run
  of \<open>negotiate\<close> has submitted a description to or read \<open>complete\<close> from.
\<close>

definition ids_ok :: "state \<Rightarrow> bool" where
  "ids_ok s =
     ((\<forall>p. pc s = Some p \<longrightarrow> p < next_pc s)
      \<and> (\<forall>c p. SetLocalCall c p \<in> set (neg_trace s) \<longrightarrow> p < next_pc s)
      \<and> (\<forall>c p. GatheringCompleteSeen c p \<in> set (neg_trace s) \<longrightarrow> p < next_pc s)
      \<and> (\<forall>c p. SetRemoteCall c p \<in> set (neg_trace s) \<longrightarrow> p < next_pc s))"

text \<open>
  A run that waits for \<open>setLocalDescription\<close> has made that call on the connection it
  waits for. A run that waits for gathering, or has seen it complete, has had its
  local description applied to the connection it submitted it to.
\<close>

definition local_ok :: "state \<Rightarrow> bool" where
  "local_ok s =
     ((\<forall>c p offer. chains s c = AwaitSetLocal p offer \<longrightarrow> SetLocalCall c p \<in> set (neg_trace s))
      \<and> (\<forall>c. chains s c = AwaitGathering \<or> GatheringDone \<in> set (steps_in c (neg_trace s)) \<longrightarrow>
            (\<exists>p. SetLocalCall c p \<in> set (neg_trace s) \<and> localDescription (pcs s p) \<noteq> None)))"

text \<open>
  A run that waits for \<open>setRemoteDescription\<close> has made that call on the connection it
  waits for. A connection has a remote description only when some run has submitted
  one to it.
\<close>

definition remote_ok :: "state \<Rightarrow> bool" where
  "remote_ok s =
     ((\<forall>c p answer. chains s c = AwaitSetRemote p answer \<longrightarrow>
            SetRemoteCall c p \<in> set (neg_trace s))
      \<and> (\<forall>p. remoteDescription (pcs s p) \<noteq> None \<longrightarrow>
            (\<exists>c. SetRemoteCall c p \<in> set (neg_trace s))))"

definition applied_ok :: "state \<Rightarrow> bool" where
  "applied_ok s = (ids_ok s \<and> local_ok s \<and> remote_ok s)"


section \<open>Auxiliary facts\<close>

lemmas prim_defs = log_def alert_def throw_def called_def update_pc_def update_dc_def
  addEventListener_def removeEventListener_def setInterval_def clearInterval_def
  setTimeout_close_def dc_close_def pc_close_def

lemmas stop_defs = stop_def stop_interval_def stop_channel_def stop_connection_def
  clear_handler_attributes_def

subsection \<open>What \<open>stop\<close> and \<open>start\<close> do to each variable\<close>

lemma stop_pc: "pc (stop s) = pc s"
  by (simp add: stop_defs prim_defs Let_def split: option.splits)

lemma stop_fields:
  "dc (stop s) = None" "dcInterval (stop s) = None" "video_srcObject (stop s) = None"
  "startButton_disabled (stop s) = False" "stopButton_disabled (stop s) = True"
  "requestFrameButton_disabled (stop s) = True"
  "next_pc (stop s) = next_pc s" "next_dc (stop s) = next_dc s"
  "next_timer (stop s) = next_timer s" "chains (stop s) = chains s"
  "next_chain (stop s) = next_chain s" "sent (stop s) = sent s"
  "uncaught (stop s) = uncaught s" "alerts (stop s) = alerts s"
  by (simp_all add: stop_defs prim_defs Let_def split: option.splits)

lemma stop_pending:
  "pending_closes (stop s) = (if pc s = None then pending_closes s else Suc (pending_closes s))"
  by (simp add: stop_defs prim_defs Let_def split: option.splits)

lemma stop_intervals:
  "intervals (stop s) = (case dcInterval s of None \<Rightarrow> intervals s | Some t \<Rightarrow> intervals s - {t})"
  by (simp add: stop_defs prim_defs Let_def split: option.splits)

lemma stop_pcs:
  "pcs (stop s) =
     (case pc s of
        None \<Rightarrow> pcs s
      | Some p \<Rightarrow> (pcs s)(p := (pcs s p)\<lparr>ontrack := None, onicegatheringstatechange := None,
                                         onconnectionstatechange := None\<rparr>))"
  by (simp add: stop_defs prim_defs Let_def split: option.splits)

lemma stop_dcs:
  "dcs (stop s) =
     (case dc s of
        None \<Rightarrow> dcs s
      | Some d \<Rightarrow> (dcs s)(d := if readyState (dcs s d) = ChClosed then dcs s d
                                else (dcs s d)\<lparr>readyState := ChClosing\<rparr>))"
  by (simp add: stop_defs prim_defs Let_def split: option.splits)

lemma stop_trace:
  "trace (stop s) =
     trace s @ (case dcInterval s of None \<Rightarrow> [] | Some t \<Rightarrow> [ClearIntervalCall t])
             @ (case dc s of None \<Rightarrow> [] | Some d \<Rightarrow> [DcCloseCall d])
             @ (case pc s of None \<Rightarrow> [] | Some p \<Rightarrow> [SetTimeoutCall])"
  by (simp add: stop_defs prim_defs Let_def split: option.splits)

lemma stop_logs:
  "logs (stop s) =
     logs s @ [''Stop connection button clicked / Starting stop process'']
       @ (case dcInterval s of None \<Rightarrow> [] | Some t \<Rightarrow> [''DataChannel ping interval stopped''])
       @ (case dc s of None \<Rightarrow> [] | Some d \<Rightarrow> [''Closing DataChannel''])
       @ (case pc s of None \<Rightarrow> [] | Some p \<Rightarrow> [''Closing PeerConnection''])
       @ [''Video element reset'', ''Stop process complete'']"
  by (simp add: stop_defs prim_defs Let_def split: option.splits)

lemma start_eq:
  "start s =
     s\<lparr>pc := Some (next_pc s), dc := Some (next_dc s),
       startButton_disabled := True, stopButton_disabled := False,
       logs := logs s @ [''Start connection button clicked'',
               ''DataChannel '' @ quote @ ''chat'' @ quote @ '' creation attempt'',
               ''Starting negotiation...''],
       pcs := (pcs s)(next_pc s := new_peer_connection\<lparr>listeners :=
                [(ConnectionStateChange, ConnStateListener), (Track, TrackListener)]\<rparr>),
       next_pc := Suc (next_pc s),
       dcs := (dcs s)(next_dc s := \<lparr>label = ''chat'', readyState = ChConnecting, owner = next_pc s\<rparr>),
       next_dc := Suc (next_dc s),
       chains := (chains s)(next_chain s := AwaitCreateOffer (next_pc s)),
       next_chain := Suc (next_chain s),
       trace := trace s @ [CreateOfferCall (next_chain s) (next_pc s)]\<rparr>"
  by (simp add: start_def negotiate_def prim_defs Let_def new_peer_connection_def)

lemma start_fields:
  "pc (start s) = Some (next_pc s)" "dc (start s) = Some (next_dc s)"
  "next_pc (start s) = Suc (next_pc s)" "next_dc (start s) = Suc (next_dc s)"
  "dcInterval (start s) = dcInterval s" "intervals (start s) = intervals s"
  "next_timer (start s) = next_timer s" "pending_closes (start s) = pending_closes s"
  "startButton_disabled (start s) = True" "stopButton_disabled (start s) = False"
  "requestFrameButton_disabled (start s) = requestFrameButton_disabled s"
  "video_srcObject (start s) = video_srcObject s" "sent (start s) = sent s"
  "uncaught (start s) = uncaught s" "alerts (start s) = alerts s"
  "next_chain (start s) = Suc (next_chain s)"
  "chains (start s) = (chains s)(next_chain s := AwaitCreateOffer (next_pc s))"
  "trace (start s) = trace s @ [CreateOfferCall (next_chain s) (next_pc s)]"
  "logs (start s) =
     logs s @ [''Start connection button clicked'',
               ''DataChannel '' @ quote @ ''chat'' @ quote @ '' creation attempt'',
               ''Starting negotiation...'']"
  "pcs (start s) =
     (pcs s)(next_pc s := new_peer_connection\<lparr>listeners :=
        [(ConnectionStateChange, ConnStateListener), (Track, TrackListener)]\<rparr>)"
  "dcs (start s) = (dcs s)(next_dc s := \<lparr>label = ''chat'', readyState = ChConnecting, owner = next_pc s\<rparr>)"
  by (simp_all add: start_eq)

lemmas stop_simps =
  stop_pc stop_fields stop_pending stop_intervals stop_pcs stop_dcs stop_trace stop_logs

subsection \<open>Decimal numerals are read back by \<open>parseInt\<close>\<close>

lemma of_char_digit: "d < 10 \<Longrightarrow> (of_char (digit_char d) :: nat) = 48 + d"
  by (simp add: digit_char_def)

lemma is_digit_digit_char: "d < 10 \<Longrightarrow> is_digit (digit_char d)"
  by (simp add: is_digit_def of_char_digit)

lemma digit_val_digit_char: "d < 10 \<Longrightarrow> digit_val (digit_char d) = d"
  by (simp add: digit_val_def of_char_digit)

lemma not_space_digit_char: "d < 10 \<Longrightarrow> \<not> is_space (digit_char d)"
  by (simp add: is_space_def of_char_digit)

lemma digit_char_not_sign: "d < 10 \<Longrightarrow> digit_char d \<noteq> CHR ''-'' \<and> digit_char d \<noteq> CHR ''+''"
proof -
  assume d: "d < 10"
  have "(of_char (digit_char d) :: nat) \<noteq> of_char CHR ''-''" "(of_char (digit_char d) :: nat) \<noteq> of_char CHR ''+''"
    using d by (simp_all add: of_char_digit)
  then show "digit_char d \<noteq> CHR ''-'' \<and> digit_char d \<noteq> CHR ''+''" by auto
qed

lemma decimal_digits: "\<forall>c \<in> set (decimal n). is_digit c"
proof (induction n rule: decimal.induct)
  case (1 n)
  show ?case
  proof (cases "n < 10")
    case True
    then show ?thesis by (simp add: decimal.simps[of n] is_digit_digit_char)
  next
    case False
    with 1 show ?thesis by (simp add: decimal.simps[of n] is_digit_digit_char)
  qed
qed

lemma decimal_value: "foldl (\<lambda>a c. 10 * a + digit_val c) 0 (decimal n) = n"
proof (induction n rule: decimal.induct)
  case (1 n)
  show ?case
  proof (cases "n < 10")
    case True
    then show ?thesis by (simp add: decimal.simps[of n] digit_val_digit_char)
  next
    case False
    with 1 show ?thesis by (simp add: decimal.simps[of n] digit_val_digit_char)
  qed
qed

lemma decimal_head: "\<exists>d r. d < 10 \<and> decimal n = digit_char d # r"
proof (induction n rule: decimal.induct)
  case (1 n)
  show ?case
  proof (cases "n < 10")
    case True
    then have "n < 10 \<and> decimal n = digit_char n # []" by (simp add: decimal.simps[of n])
    then show ?thesis by blast
  next
    case False
    with 1 obtain d r where "d < 10" "decimal (n div 10) = digit_char d # r" by blast
    with False have "d < 10 \<and> decimal n = digit_char d # (r @ [digit_char (n mod 10)])"
      by (simp add: decimal.simps[of n])
    then show ?thesis by blast
  qed
qed

lemma parseInt_decimal: "parseInt (decimal n) = exact_int (int n)"
proof -
  obtain d r where d: "d < 10" and eq: "decimal n = digit_char d # r"
    using decimal_head by blast
  have tw: "takeWhile is_digit (decimal n) = decimal n"
    using decimal_digits by (simp add: takeWhile_eq_all_conv)
  have dw: "dropWhile is_space (decimal n) = decimal n"
    using d eq by (simp add: not_space_digit_char)
  have ne: "decimal n \<noteq> []" using eq by simp
  have sg: "digit_char d \<noteq> CHR ''-''" "digit_char d \<noteq> CHR ''+''"
    using digit_char_not_sign[OF d] by simp_all
  have s1: "(case decimal n of [] \<Rightarrow> decimal n | c # r \<Rightarrow> if c = CHR ''-'' \<or> c = CHR ''+'' then r else decimal n) = decimal n"
    using eq sg by simp
  have ng: "(case decimal n of [] \<Rightarrow> False | c # r \<Rightarrow> c = CHR ''-'') = False"
    using eq sg by simp
  show ?thesis
    unfolding parseInt_def Let_def dw s1 ng tw
    using ne by (simp add: digits_value_def decimal_value)
qed

lemma roundtrip_pong:
  "roundtrip now (''pong '' @ decimal t) = js_minus (exact_int (int now)) (exact_int (int t))"
  by (simp add: roundtrip_def parseInt_decimal)

lemma roundtrip_exact:
  assumes "now \<le> 2 ^ 53" and "t \<le> 2 ^ 53"
  shows "roundtrip now (''pong '' @ decimal t) = Num (int now - int t)"
proof -
  have a: "\<bar>int now\<bar> \<le> 2 ^ 53" "\<bar>int t\<bar> \<le> 2 ^ 53"
    using assms by (simp_all add: of_nat_le_iff [of _ "2 ^ 53", where ?'a = int, simplified])
  then have b: "\<bar>int now - int t\<bar> \<le> 2 ^ 53" by linarith
  have "roundtrip now (''pong '' @ decimal t) = js_minus (Num (int now)) (Num (int t))"
    unfolding roundtrip_pong using a by (simp add: exact_int_def)
  also have "\<dots> = Num (int now - int t)" using b by (simp add: exact_int_def)
  finally show ?thesis .
qed

subsection \<open>What the negotiation callbacks and the listeners leave alone\<close>

lemma stop_pc_object:
  "iceGatheringState (pcs (stop s) q) = iceGatheringState (pcs s q)"
  "connectionState (pcs (stop s) q) = connectionState (pcs s q)"
  "localDescription (pcs (stop s) q) = localDescription (pcs s q)"
  "remoteDescription (pcs (stop s) q) = remoteDescription (pcs s q)"
  "listeners (pcs (stop s) q) = listeners (pcs s q)"
  "is_closed (pcs (stop s) q) = is_closed (pcs s q)"
  by (simp_all add: stop_pcs split: option.splits)

lemma neg_catch_eq:
  "neg_catch c e s =
     stop (s\<lparr>chains := (chains s)(c := NegFailed),
             trace := trace s @ [NegotiationFailed c],
             logs := logs s @ [''Negotiation failed: '' @ error_text e],
             alerts := alerts s @ [''Negotiation failed: '' @ error_text e]\<rparr>)"
  by (simp add: neg_catch_def log_def alert_def called_def Let_def)

lemma neg_catch_fields:
  "pc (neg_catch c e s) = pc s" "dc (neg_catch c e s) = None"
  "dcInterval (neg_catch c e s) = None" "video_srcObject (neg_catch c e s) = None"
  "chains (neg_catch c e s) = (chains s)(c := NegFailed)"
  "next_chain (neg_catch c e s) = next_chain s"
  "next_pc (neg_catch c e s) = next_pc s" "next_dc (neg_catch c e s) = next_dc s"
  "alerts (neg_catch c e s) = alerts s @ [''Negotiation failed: '' @ error_text e]"
  "uncaught (neg_catch c e s) = uncaught s" "sent (neg_catch c e s) = sent s"
  "startButton_disabled (neg_catch c e s) = False"
  "stopButton_disabled (neg_catch c e s) = True"
  "requestFrameButton_disabled (neg_catch c e s) = True"
  "pending_closes (neg_catch c e s) = (if pc s = None then pending_closes s else Suc (pending_closes s))"
  "intervals (neg_catch c e s) = (case dcInterval s of None \<Rightarrow> intervals s | Some t \<Rightarrow> intervals s - {t})"
  "trace (neg_catch c e s) =
     trace s @ [NegotiationFailed c]
       @ (case dcInterval s of None \<Rightarrow> [] | Some t \<Rightarrow> [ClearIntervalCall t])
       @ (case dc s of None \<Rightarrow> [] | Some d \<Rightarrow> [DcCloseCall d])
       @ (case pc s of None \<Rightarrow> [] | Some p \<Rightarrow> [SetTimeoutCall])"
  by (simp_all add: neg_catch_eq stop_simps split: option.splits)

lemma neg_catch_pc_object:
  "iceGatheringState (pcs (neg_catch c e s) q) = iceGatheringState (pcs s q)"
  "connectionState (pcs (neg_catch c e s) q) = connectionState (pcs s q)"
  "localDescription (pcs (neg_catch c e s) q) = localDescription (pcs s q)"
  "remoteDescription (pcs (neg_catch c e s) q) = remoteDescription (pcs s q)"
  "listeners (pcs (neg_catch c e s) q) = listeners (pcs s q)"
  "is_closed (pcs (neg_catch c e s) q) = is_closed (pcs s q)"
  by (simp_all add: neg_catch_eq stop_pc_object)

lemma then_gathered_cases:
  "pc s = None \<Longrightarrow>
     then_gathered c s =
       neg_catch c null_deref (log ''ICE gathering complete, sending Offer to server'' s)"
  "pc s = Some p \<Longrightarrow> localDescription (pcs s p) = None \<Longrightarrow>
     then_gathered c s =
       neg_catch c null_deref (log ''ICE gathering complete, sending Offer to server'' s)"
  "pc s = Some p \<Longrightarrow> localDescription (pcs s p) = Some offer \<Longrightarrow>
     then_gathered c s =
       s\<lparr>chains := (chains s)(c := AwaitFetch offer),
         logs := logs s @ [''ICE gathering complete, sending Offer to server''],
         trace := trace s @ [FetchCall c \<lparr>sdp_kind = sdp_kind offer, sdp = sdp offer\<rparr>]\<rparr>"
  by (simp_all add: then_gathered_def log_def called_def Let_def)

lemma then_gathered_frame:
  "pc (then_gathered c s) = pc s"
  "next_chain (then_gathered c s) = next_chain s"
  "iceGatheringState (pcs (then_gathered c s) q) = iceGatheringState (pcs s q)"
  "connectionState (pcs (then_gathered c s) q) = connectionState (pcs s q)"
  "localDescription (pcs (then_gathered c s) q) = localDescription (pcs s q)"
  "remoteDescription (pcs (then_gathered c s) q) = remoteDescription (pcs s q)"
  "listeners (pcs (then_gathered c s) q) = listeners (pcs s q)"
  "is_closed (pcs (then_gathered c s) q) = is_closed (pcs s q)"
  "c' \<noteq> c \<Longrightarrow> chains (then_gathered c s) c' = chains s c'"
  by (simp_all add: then_gathered_def neg_catch_fields neg_catch_pc_object log_def called_def
        Let_def split: option.splits)

lemma resolve_wait_frame:
  "pc (resolve_wait c p s) = pc s"
  "next_chain (resolve_wait c p s) = next_chain s"
  "iceGatheringState (pcs (resolve_wait c p s) q) = iceGatheringState (pcs s q)"
  "connectionState (pcs (resolve_wait c p s) q) = connectionState (pcs s q)"
  "localDescription (pcs (resolve_wait c p s) q) = localDescription (pcs s q)"
  "remoteDescription (pcs (resolve_wait c p s) q) = remoteDescription (pcs s q)"
  "listeners (pcs (resolve_wait c p s) q) = listeners (pcs s q)"
  "is_closed (pcs (resolve_wait c p s) q) = is_closed (pcs s q)"
  "c' \<noteq> c \<Longrightarrow> chains (resolve_wait c p s) c' = chains s c'"
  by (simp_all add: resolve_wait_def then_gathered_frame called_def)

lemma checkState_frame:
  "pc (checkState c s) = pc s"
  "next_chain (checkState c s) = next_chain s"
  "iceGatheringState (pcs (checkState c s) q) = iceGatheringState (pcs s q)"
  "connectionState (pcs (checkState c s) q) = connectionState (pcs s q)"
  "localDescription (pcs (checkState c s) q) = localDescription (pcs s q)"
  "remoteDescription (pcs (checkState c s) q) = remoteDescription (pcs s q)"
  "is_closed (pcs (checkState c s) q) = is_closed (pcs s q)"
  "c' \<noteq> c \<Longrightarrow> chains (checkState c s) c' = chains s c'"
  by (simp_all add: checkState_def resolve_wait_frame removeEventListener_def update_pc_def
        throw_def Let_def split: option.splits)

lemma conn_listener_frame:
  "pc (conn_listener s) = pc s"
  "next_chain (conn_listener s) = next_chain s"
  "chains (conn_listener s) = chains s"
  "iceGatheringState (pcs (conn_listener s) q) = iceGatheringState (pcs s q)"
  "connectionState (pcs (conn_listener s) q) = connectionState (pcs s q)"
  "localDescription (pcs (conn_listener s) q) = localDescription (pcs s q)"
  "remoteDescription (pcs (conn_listener s) q) = remoteDescription (pcs s q)"
  "listeners (pcs (conn_listener s) q) = listeners (pcs s q)"
  "is_closed (pcs (conn_listener s) q) = is_closed (pcs s q)"
  by (simp_all add: conn_listener_def stop_simps stop_pc_object log_def throw_def Let_def
        split: option.splits)

lemma track_listener_frame:
  "pc (track_listener kind streams s) = pc s"
  "next_chain (track_listener kind streams s) = next_chain s"
  "chains (track_listener kind streams s) = chains s"
  "pcs (track_listener kind streams s) = pcs s"
  "trace (track_listener kind streams s) = trace s"
  by (simp_all add: track_listener_def log_def throw_def Let_def split: list.splits)

lemma run_listener_frame:
  "pc (run_listener l ev s) = pc s"
  "next_chain (run_listener l ev s) = next_chain s"
  "iceGatheringState (pcs (run_listener l ev s) q) = iceGatheringState (pcs s q)"
  "connectionState (pcs (run_listener l ev s) q) = connectionState (pcs s q)"
  "localDescription (pcs (run_listener l ev s) q) = localDescription (pcs s q)"
  "remoteDescription (pcs (run_listener l ev s) q) = remoteDescription (pcs s q)"
  "is_closed (pcs (run_listener l ev s) q) = is_closed (pcs s q)"
  by (simp_all add: run_listener_def checkState_frame conn_listener_frame track_listener_frame
        split: listener.splits dom_event.splits)

lemma run_listener_other_chain:
  "l \<noteq> CheckState c' \<Longrightarrow> chains (run_listener l ev s) c' = chains s c'"
  by (cases l) (simp_all add: run_listener_def checkState_frame conn_listener_frame
        track_listener_frame split: dom_event.splits)

lemma fold_listeners_keeps:
  assumes "\<And>l s. P s \<Longrightarrow> P (run_listener l ev s)" and "P s"
  shows "P (fold (\<lambda>l. run_listener l ev) ls s)"
  using assms(2) by (induction ls arbitrary: s) (simp_all add: assms(1))

lemma fold_listeners_reaches:
  assumes "l0 \<in> set ls"
    and "\<And>l s. P s \<Longrightarrow> P (run_listener l ev s)"
    and "\<And>s. P s \<Longrightarrow> Q (run_listener l0 ev s)"
    and "\<And>l s. P s \<Longrightarrow> Q s \<Longrightarrow> Q (run_listener l ev s)"
    and "P s"
  shows "Q (fold (\<lambda>l. run_listener l ev) ls s)"
  using assms(1,5)
proof (induction ls arbitrary: s)
  case Nil
  then show ?case by simp
next
  case (Cons l ls)
  show ?case
  proof (cases "l = l0")
    case True
    have "P (run_listener l ev s)" "Q (run_listener l ev s)"
      using Cons.prems(2) True assms(2,3) by simp_all
    then have "P (fold (\<lambda>l. run_listener l ev) ls (run_listener l ev s))
        \<and> Q (fold (\<lambda>l. run_listener l ev) ls (run_listener l ev s))"
      by (induction ls arbitrary: s rule: rev_induct) (simp_all add: assms(2,4))
    then show ?thesis by simp
  next
    case False
    with Cons.prems(1) have "l0 \<in> set ls" by simp
    moreover have "P (run_listener l ev s)" using Cons.prems(2) assms(2) by simp
    ultimately show ?thesis using Cons.IH by simp
  qed
qed

lemmas eval_simps = prim_defs quote_def dc_send_def deferred_close_def negotiate_def
  then_offer_def then_gathered_def resolve_wait_def then_local_def checkState_def then_response_def
  then_answer_def then_remote_def offer_settled_def local_settled_def fetch_settled_def
  json_settled_def remote_settled_def conn_listener_def track_listener_def dc_onopen_def
  ping_tick_def dc_onclose_def dc_onerror_def dc_onmessage_def frame_request_refused_def
  requestFrame_def run_listener_def handlers_for_def dispatch_def live_pc_def
  new_peer_connection_def no_channel_def close_channels_of_def neg_catch_eq start_fields stop_simps init_def Let_def

section \<open>Request Frame\<close>

text \<open>
  C9. \<open>requestFrame()\<close> called while the control channel is absent or not open does not
  throw, transmits nothing and makes no call on the channel: it only logs the failure
  and shows the warning. When the channel is open it calls \<open>send\<close> exactly once, with the
  literal \<open>send_frame\<close>; when the transport accepts the message, exactly that message is
  transmitted and nothing is thrown.
\<close>

theorem requestFrame_sends_only_when_open:
  "((dc s = None \<or> (\<exists>d. dc s = Some d \<and> readyState (dcs s d) \<noteq> ChOpen)) \<longrightarrow>
      requestFrame accepted s =
        alert ''DataChannel is not open. Please check the connection.''
          (log ''Frame request failed: DataChannel is not open'' s)
      \<and> uncaught (requestFrame accepted s) = uncaught s
      \<and> sent (requestFrame accepted s) = sent s
      \<and> trace (requestFrame accepted s) = trace s)
   \<and> (\<forall>d. dc s = Some d \<and> readyState (dcs s d) = ChOpen \<longrightarrow>
         trace (requestFrame accepted s) = trace s @ [DcSendCall d ''send_frame'']
         \<and> (accepted \<longrightarrow> sent (requestFrame accepted s) = sent s @ [(d, ''send_frame'')]
                          \<and> uncaught (requestFrame accepted s) = uncaught s))"
  by (auto simp: requestFrame_def frame_request_refused_def dc_send_def log_def alert_def
        called_def throw_def Let_def split: option.splits)

lemma opened_channel:
  "dc (run [ClickStart, ChannelOpened 0] init) = Some 0 \<and>
   readyState (dcs (run [ClickStart, ChannelOpened 0] init) 0) = ChOpen \<and>
   sent (run [ClickStart, ChannelOpened 0] init) = [] \<and>
   uncaught (run [ClickStart, ChannelOpened 0] init) = []"
  by (simp add: start_fields dc_onopen_def prim_defs init_def Let_def)

theorem requestFrame_sends_only_when_open_witness:
  "dc init = None \<and> sent (requestFrame True init) = sent init
   \<and> uncaught (requestFrame True init) = uncaught init
   \<and> dc (run [ClickStart, ChannelOpened 0] init) = Some 0
   \<and> readyState (dcs (run [ClickStart, ChannelOpened 0] init) 0) = ChOpen
   \<and> sent (requestFrame True (run [ClickStart, ChannelOpened 0] init)) = [(0, ''send_frame'')]
   \<and> uncaught (requestFrame True (run [ClickStart, ChannelOpened 0] init)) = []"
proof -
  have closed: "dc init = None" by (simp add: init_def)
  show ?thesis
    using closed opened_channel
      requestFrame_sends_only_when_open [of init True]
      requestFrame_sends_only_when_open [of "run [ClickStart, ChannelOpened 0] init" True]
    by (simp del: run.simps add: alert_def log_def)
qed

section \<open>The deferred close and a restarted session\<close>

text \<open>
  C10. When \<open>stop()\<close> is followed by \<open>start()\<close> before the deferred close fires, the
  deferred close closes and releases the session that \<open>start()\<close> has just created, not
  the one it was scheduled for: its guard only tests that the global \<open>pc\<close> is set.
  After Stop and Start the global \<open>pc\<close> is the new connection and it is not closed;
  after the timeout it is closed and \<open>pc\<close> is null, while the old connection is as
  closed or open as it was.
\<close>

theorem deferred_close_hits_new_session:
  assumes "pc s = Some p" and "p < next_pc s" and "\<not> stopButton_disabled s"
  shows "pc (run [ClickStop, ClickStart] s) = Some (next_pc s)
     \<and> \<not> is_closed (pcs (run [ClickStop, ClickStart] s) (next_pc s))
     \<and> pc (run [ClickStop, ClickStart, TimeoutFired] s) = None
     \<and> is_closed (pcs (run [ClickStop, ClickStart, TimeoutFired] s) (next_pc s))
     \<and> is_closed (pcs (run [ClickStop, ClickStart, TimeoutFired] s) p) = is_closed (pcs s p)"
  using assms
  by (simp add: stop_simps start_fields
        deferred_close_def pc_close_def update_pc_def called_def log_def new_peer_connection_def)

theorem deferred_close_hits_new_session_witness:
  "pc (run [ClickStart] init) = Some 0 \<and> 0 < next_pc (run [ClickStart] init)
   \<and> \<not> stopButton_disabled (run [ClickStart] init)
   \<and> pc (run [ClickStart, ClickStop, ClickStart] init) = Some 1
   \<and> pc (run [ClickStart, ClickStop, ClickStart, TimeoutFired] init) = None
   \<and> is_closed (pcs (run [ClickStart, ClickStop, ClickStart, TimeoutFired] init) 1)
   \<and> \<not> is_closed (pcs (run [ClickStart, ClickStop, ClickStart, TimeoutFired] init) 0)"
proof -
  have h: "pc (run [ClickStart] init) = Some 0" "0 < next_pc (run [ClickStart] init)"
    "\<not> stopButton_disabled (run [ClickStart] init)" "next_pc (run [ClickStart] init) = 1"
    "\<not> is_closed (pcs (run [ClickStart] init) 0)"
    by (simp_all add: start_fields init_def new_peer_connection_def)
  have r: "run [ClickStart, ClickStop, ClickStart] init = run [ClickStop, ClickStart] (run [ClickStart] init)"
    "run [ClickStart, ClickStop, ClickStart, TimeoutFired] init = run [ClickStop, ClickStart, TimeoutFired] (run [ClickStart] init)"
    by simp_all
  show ?thesis
    using h deferred_close_hits_new_session [OF h(1) h(2) h(3)]
    unfolding r by (simp del: run.simps)
qed

section \<open>Listeners after teardown\<close>

text \<open>
  C3. Teardown is meant to detach the session's listeners (the source says "It's safer
  to remove event listeners"), but \<open>stop\<close> only clears the three event-handler
  attributes, while \<open>start\<close> registered its listeners with \<open>addEventListener\<close>. After
  Start and Stop both listeners are still registered on the connection, which \<open>pc\<close>
  still names until the deferred close. A track event arriving then runs the track
  listener, which attaches the stream to the video element that teardown has just
  detached; a connection-state change runs the state listener, which logs and calls
  \<open>stop\<close> again.
\<close>

theorem listeners_survive_teardown:
  "listeners (pcs (run [ClickStart, ClickStop] init) 0)
     = [(ConnectionStateChange, ConnStateListener), (Track, TrackListener)]
   \<and> pc (run [ClickStart, ClickStop] init) = Some 0
   \<and> video_srcObject (run [ClickStart, ClickStop] init) = None
   \<and> video_srcObject (run [ClickStart, ClickStop, TrackArrived 0 ''video'' [7]] init) = Some 7
   \<and> logs (run [ClickStart, ClickStop, ConnectionChanged 0 Disconnected] init)
       = logs (run [ClickStart, ClickStop] init) @
         [''Connection state changed: disconnected'', ''Connection has been disconnected.'',
          ''Stop connection button clicked / Starting stop process'',
          ''Closing PeerConnection'', ''Video element reset'', ''Stop process complete'']"
  by (simp add: start_fields stop_simps dispatch_def handlers_for_def run_listener_def
        track_listener_def conn_listener_def live_pc_def log_def update_pc_def init_def
        new_peer_connection_def Let_def)

section \<open>The gathering-completion wait\<close>

lemma checkState_resolves:
  assumes "pc s = Some p" and "iceGatheringState (pcs s p) = GatherComplete"
    and "localDescription (pcs s p) = Some offer"
    and "chains s c = AwaitGathering \<or> chains s c = AwaitFetch offer"
  shows "chains (checkState c s) c = AwaitFetch offer"
  using assms
  by (auto simp: checkState_def removeEventListener_def update_pc_def resolve_wait_def
        then_gathered_def log_def called_def Let_def)

lemma checkState_waits:
  assumes "pc s = Some p" and "iceGatheringState (pcs s p) \<noteq> GatherComplete"
  shows "checkState c s = s"
  using assms by (simp add: checkState_def)

lemma registered_handler:
  "(ty, l) \<in> set (listeners obj) \<Longrightarrow> l \<in> set (handlers_for obj ty)"
  by (force simp: handlers_for_def)

text \<open>
  C7 as stated does not hold: the wait does not always resolve upon a notification
  reporting complete. \<open>checkState\<close> reads the gathering state of the connection the
  global \<open>pc\<close> names when the notification arrives, not of the connection it was
  registered on. Here the user clicks Stop and Start again while the first run
  waits: the first connection then reports complete, its listener (still registered)
  runs and finds the second connection not complete, and the first run stays
  suspended although gathering on its connection has completed.
\<close>

theorem notification_misses_waiting_run:
  "chains (run [ClickStart, OfferSettled 0 (Inr \<lparr>sdp_kind = Offer, sdp = ''v=0''\<rparr>),
                LocalSettled 0 None, ClickStop, ClickStart] init) 0 = AwaitGathering
   \<and> (IceGatheringStateChange, CheckState 0)
        \<in> set (listeners
              (pcs (run [ClickStart, OfferSettled 0 (Inr \<lparr>sdp_kind = Offer, sdp = ''v=0''\<rparr>),
                         LocalSettled 0 None, ClickStop, ClickStart] init) 0))
   \<and> live_pc 0 (run [ClickStart, OfferSettled 0 (Inr \<lparr>sdp_kind = Offer, sdp = ''v=0''\<rparr>),
                      LocalSettled 0 None, ClickStop, ClickStart] init)
   \<and> iceGatheringState
        (pcs (run [ClickStart, OfferSettled 0 (Inr \<lparr>sdp_kind = Offer, sdp = ''v=0''\<rparr>),
                   LocalSettled 0 None, ClickStop, ClickStart,
                   GatheringChanged 0 GatherComplete] init) 0) = GatherComplete
   \<and> pc (run [ClickStart, OfferSettled 0 (Inr \<lparr>sdp_kind = Offer, sdp = ''v=0''\<rparr>),
               LocalSettled 0 None, ClickStop, ClickStart,
               GatheringChanged 0 GatherComplete] init) = Some 1
   \<and> chains (run [ClickStart, OfferSettled 0 (Inr \<lparr>sdp_kind = Offer, sdp = ''v=0''\<rparr>),
                   LocalSettled 0 None, ClickStop, ClickStart,
                   GatheringChanged 0 GatherComplete] init) 0 = AwaitGathering
   \<and> uncaught (run [ClickStart, OfferSettled 0 (Inr \<lparr>sdp_kind = Offer, sdp = ''v=0''\<rparr>),
                     LocalSettled 0 None, ClickStop, ClickStart,
                     GatheringChanged 0 GatherComplete] init) = []
   \<and> alerts (run [ClickStart, OfferSettled 0 (Inr \<lparr>sdp_kind = Offer, sdp = ''v=0''\<rparr>),
                   LocalSettled 0 None, ClickStop, ClickStart,
                   GatheringChanged 0 GatherComplete] init) = []"
  by (simp add: eval_simps)

text \<open>
  C7, amended. The callback that follows \<open>setLocalDescription\<close> reads the gathering
  state of the connection \<open>pc\<close> names. If it is already complete, the run goes on in
  the same task (no listener is registered, the run is never left waiting).
  Otherwise \<open>checkState\<close> is registered on that connection and the run waits. While
  \<open>pc\<close> still names that connection, a gathering-state notification reporting complete
  moves the waiting run on to the signaling request, and a notification reporting
  another state leaves it waiting. Once \<open>pc\<close> names another connection whose gathering
  is not complete, every notification delivered to the first connection leaves the
  run waiting.
\<close>

theorem gathering_wait:
  "(pc s = Some p \<and> iceGatheringState (pcs s p) = GatherComplete \<longrightarrow>
      then_local c s = resolve_wait c p (log ''Local Description setting successful'' s)
      \<and> chains (then_local c s) c \<noteq> AwaitGathering
      \<and> listeners (pcs (then_local c s) p) = listeners (pcs s p))
   \<and> (pc s = Some p \<and> iceGatheringState (pcs s p) \<noteq> GatherComplete \<longrightarrow>
      chains (then_local c s) c = AwaitGathering
      \<and> (IceGatheringStateChange, CheckState c) \<in> set (listeners (pcs (then_local c s) p)))
   \<and> (pc s = Some p \<and> live_pc p s \<and> chains s c = AwaitGathering
       \<and> localDescription (pcs s p) = Some offer
       \<and> (IceGatheringStateChange, CheckState c) \<in> set (listeners (pcs s p)) \<longrightarrow>
      chains (step (GatheringChanged p GatherComplete) s) c = AwaitFetch offer
      \<and> (g \<noteq> GatherComplete \<longrightarrow> chains (step (GatheringChanged p g) s) c = AwaitGathering))
   \<and> (pc s = Some q \<and> q \<noteq> p \<and> iceGatheringState (pcs s q) \<noteq> GatherComplete
       \<and> chains s c = AwaitGathering \<longrightarrow>
      chains (step (GatheringChanged p g) s) c = AwaitGathering)"
proof (intro conjI impI)
  assume a: "pc s = Some p \<and> iceGatheringState (pcs s p) = GatherComplete"
  then show eq: "then_local c s = resolve_wait c p (log ''Local Description setting successful'' s)"
    by (simp add: then_local_def log_def Let_def)
  show "chains (then_local c s) c \<noteq> AwaitGathering"
    unfolding eq
    by (simp add: resolve_wait_def then_gathered_def neg_catch_fields log_def called_def Let_def
          split: option.splits)
  show "listeners (pcs (then_local c s) p) = listeners (pcs s p)"
    unfolding eq by (simp add: resolve_wait_frame log_def)
next
  assume a: "pc s = Some p \<and> iceGatheringState (pcs s p) \<noteq> GatherComplete"
  then show "chains (then_local c s) c = AwaitGathering"
    by (simp add: then_local_def addEventListener_def update_pc_def log_def Let_def)
  from a show "(IceGatheringStateChange, CheckState c) \<in> set (listeners (pcs (then_local c s) p))"
    by (simp add: then_local_def addEventListener_def update_pc_def log_def Let_def)
next
  assume a: "pc s = Some p \<and> live_pc p s \<and> chains s c = AwaitGathering
       \<and> localDescription (pcs s p) = Some offer
       \<and> (IceGatheringStateChange, CheckState c) \<in> set (listeners (pcs s p))"
  let ?s1 = "update_pc p (\<lambda>obj. obj\<lparr>iceGatheringState := GatherComplete\<rparr>) s"
  let ?P = "\<lambda>s. pc s = Some p \<and> iceGatheringState (pcs s p) = GatherComplete
              \<and> localDescription (pcs s p) = Some offer
              \<and> (chains s c = AwaitGathering \<or> chains s c = AwaitFetch offer)"
  let ?Q = "\<lambda>s. chains s c = AwaitFetch offer"
  have keep: "?P (run_listener l ev t)" if "?P t" for l ev t
  proof (cases "l = CheckState c")
    case True
    with that show ?thesis
      using checkState_resolves [of t p offer c]
      by (simp add: run_listener_frame) (simp add: run_listener_def)
  next
    case False
    with that show ?thesis by (simp add: run_listener_frame run_listener_other_chain)
  qed
  have est: "?Q (run_listener (CheckState c) ev t)" if "?P t" for ev t
    using that checkState_resolves [of t p offer c] by (simp add: run_listener_def)
  have pres: "?Q (run_listener l ev t)" if "?P t" "?Q t" for l ev t
  proof (cases "l = CheckState c")
    case True
    with that show ?thesis using checkState_resolves [of t p offer c] by (simp add: run_listener_def)
  next
    case False
    with that show ?thesis by (simp add: run_listener_other_chain)
  qed
  have mem: "CheckState c \<in> set (handlers_for (pcs ?s1 p) IceGatheringStateChange)"
    using a by (intro registered_handler) (simp add: update_pc_def)
  have p1: "?P ?s1" using a by (simp add: update_pc_def)
  have "?Q (fold (\<lambda>l. run_listener l IceGatheringStateChangeEv)
              (handlers_for (pcs ?s1 p) IceGatheringStateChange) ?s1)"
    by (rule fold_listeners_reaches [where P = ?P and Q = ?Q, OF mem keep est pres p1])
  then show "chains (step (GatheringChanged p GatherComplete) s) c = AwaitFetch offer"
    using a by (simp add: dispatch_def)
next
  assume a: "pc s = Some p \<and> live_pc p s \<and> chains s c = AwaitGathering
       \<and> localDescription (pcs s p) = Some offer
       \<and> (IceGatheringStateChange, CheckState c) \<in> set (listeners (pcs s p))"
    and g: "g \<noteq> GatherComplete"
  let ?s1 = "update_pc p (\<lambda>obj. obj\<lparr>iceGatheringState := g\<rparr>) s"
  let ?P = "\<lambda>s. pc s = Some p \<and> iceGatheringState (pcs s p) = g \<and> chains s c = AwaitGathering"
  have keep: "?P (run_listener l ev t)" if "?P t" for l ev t
  proof (cases "l = CheckState c")
    case True
    with that g show ?thesis
      using checkState_waits [of t p c] by (simp add: run_listener_def)
  next
    case False
    with that show ?thesis by (simp add: run_listener_frame run_listener_other_chain)
  qed
  have p1: "?P ?s1" using a by (simp add: update_pc_def)
  have "?P (fold (\<lambda>l. run_listener l IceGatheringStateChangeEv)
              (handlers_for (pcs ?s1 p) IceGatheringStateChange) ?s1)"
    by (rule fold_listeners_keeps [where P = ?P, OF keep p1])
  then show "chains (step (GatheringChanged p g) s) c = AwaitGathering"
    using a by (simp add: dispatch_def)
next
  assume a: "pc s = Some q \<and> q \<noteq> p \<and> iceGatheringState (pcs s q) \<noteq> GatherComplete
       \<and> chains s c = AwaitGathering"
  let ?s1 = "update_pc p (\<lambda>obj. obj\<lparr>iceGatheringState := g\<rparr>) s"
  let ?P = "\<lambda>s. pc s = Some q \<and> iceGatheringState (pcs s q) \<noteq> GatherComplete
              \<and> chains s c = AwaitGathering"
  have keep: "?P (run_listener l ev t)" if "?P t" for l ev t
  proof (cases "l = CheckState c")
    case True
    with that show ?thesis
      using checkState_waits [of t q c] by (simp add: run_listener_def)
  next
    case False
    with that show ?thesis by (simp add: run_listener_frame run_listener_other_chain)
  qed
  have p1: "?P ?s1" using a by (simp add: update_pc_def)
  have "?P (fold (\<lambda>l. run_listener l IceGatheringStateChangeEv)
              (handlers_for (pcs ?s1 p) IceGatheringStateChange) ?s1)"
    by (rule fold_listeners_keeps [where P = ?P, OF keep p1])
  then show "chains (step (GatheringChanged p g) s) c = AwaitGathering"
    using a by (simp add: dispatch_def)
qed

theorem gathering_wait_witness:
  "pc (run [ClickStart, GatheringChanged 0 GatherComplete] init) = Some 0
   \<and> iceGatheringState (pcs (run [ClickStart, GatheringChanged 0 GatherComplete] init) 0) = GatherComplete
   \<and> chains (then_local 0 (run [ClickStart, GatheringChanged 0 GatherComplete] init)) 0 \<noteq> AwaitGathering
   \<and> pc (run [ClickStart] init) = Some 0
   \<and> iceGatheringState (pcs (run [ClickStart] init) 0) \<noteq> GatherComplete
   \<and> chains (then_local 0 (run [ClickStart] init)) 0 = AwaitGathering
   \<and> chains (run [ClickStart, OfferSettled 0 (Inr \<lparr>sdp_kind = Offer, sdp = ''v=0''\<rparr>),
                   LocalSettled 0 None] init) 0 = AwaitGathering
   \<and> pc (run [ClickStart, OfferSettled 0 (Inr \<lparr>sdp_kind = Offer, sdp = ''v=0''\<rparr>),
               LocalSettled 0 None] init) = Some 0
   \<and> live_pc 0 (run [ClickStart, OfferSettled 0 (Inr \<lparr>sdp_kind = Offer, sdp = ''v=0''\<rparr>),
                      LocalSettled 0 None] init)
   \<and> localDescription
        (pcs (run [ClickStart, OfferSettled 0 (Inr \<lparr>sdp_kind = Offer, sdp = ''v=0''\<rparr>),
                   LocalSettled 0 None] init) 0) = Some \<lparr>sdp_kind = Offer, sdp = ''v=0''\<rparr>
   \<and> (IceGatheringStateChange, CheckState 0)
        \<in> set (listeners
              (pcs (run [ClickStart, OfferSettled 0 (Inr \<lparr>sdp_kind = Offer, sdp = ''v=0''\<rparr>),
                         LocalSettled 0 None] init) 0))
   \<and> Gathering \<noteq> GatherComplete
   \<and> chains (run [ClickStart, OfferSettled 0 (Inr \<lparr>sdp_kind = Offer, sdp = ''v=0''\<rparr>),
                   LocalSettled 0 None, GatheringChanged 0 GatherComplete] init) 0
        = AwaitFetch \<lparr>sdp_kind = Offer, sdp = ''v=0''\<rparr>
   \<and> chains (run [ClickStart, OfferSettled 0 (Inr \<lparr>sdp_kind = Offer, sdp = ''v=0''\<rparr>),
                   LocalSettled 0 None, GatheringChanged 0 Gathering] init) 0 = AwaitGathering
   \<and> pc (run [ClickStart, OfferSettled 0 (Inr \<lparr>sdp_kind = Offer, sdp = ''v=0''\<rparr>),
               LocalSettled 0 None, ClickStop, ClickStart] init) = Some 1
   \<and> (1::nat) \<noteq> 0
   \<and> iceGatheringState
        (pcs (run [ClickStart, OfferSettled 0 (Inr \<lparr>sdp_kind = Offer, sdp = ''v=0''\<rparr>),
                   LocalSettled 0 None, ClickStop, ClickStart] init) 1) \<noteq> GatherComplete
   \<and> chains (run [ClickStart, OfferSettled 0 (Inr \<lparr>sdp_kind = Offer, sdp = ''v=0''\<rparr>),
                   LocalSettled 0 None, ClickStop, ClickStart] init) 0 = AwaitGathering
   \<and> chains (step (GatheringChanged 0 GatherComplete)
               (run [ClickStart, OfferSettled 0 (Inr \<lparr>sdp_kind = Offer, sdp = ''v=0''\<rparr>),
                     LocalSettled 0 None, ClickStop, ClickStart] init)) 0 = AwaitGathering"
proof -
  let ?a = "run [ClickStart, GatheringChanged 0 GatherComplete] init"
  let ?b = "run [ClickStart] init"
  let ?o = "\<lparr>sdp_kind = Offer, sdp = ''v=0''\<rparr>"
  let ?c = "run [ClickStart, OfferSettled 0 (Inr ?o), LocalSettled 0 None] init"
  let ?d = "run [ClickStart, OfferSettled 0 (Inr ?o), LocalSettled 0 None, ClickStop, ClickStart] init"
  have a: "pc ?a = Some 0 \<and> iceGatheringState (pcs ?a 0) = GatherComplete"
    by (simp add: eval_simps)
  have b: "pc ?b = Some 0 \<and> iceGatheringState (pcs ?b 0) \<noteq> GatherComplete"
    by (simp add: eval_simps)
  have c: "pc ?c = Some 0 \<and> live_pc 0 ?c \<and> chains ?c 0 = AwaitGathering
       \<and> localDescription (pcs ?c 0) = Some ?o
       \<and> (IceGatheringStateChange, CheckState 0) \<in> set (listeners (pcs ?c 0))"
    by (simp add: eval_simps)
  have d: "pc ?d = Some 1 \<and> (1::nat) \<noteq> 0 \<and> iceGatheringState (pcs ?d 1) \<noteq> GatherComplete
       \<and> chains ?d 0 = AwaitGathering"
    by (simp add: eval_simps)
  have r: "run [ClickStart, OfferSettled 0 (Inr ?o), LocalSettled 0 None, GatheringChanged 0 g] init
            = step (GatheringChanged 0 g) ?c" for g
    by simp
  have g: "Gathering \<noteq> GatherComplete" by simp
  have A: "chains (then_local 0 ?a) 0 \<noteq> AwaitGathering"
    using a gathering_wait [of ?a 0 0 ?o Gathering 0] by blast
  have B: "chains (then_local 0 ?b) 0 = AwaitGathering"
    using b gathering_wait [of ?b 0 0 ?o Gathering 0] by blast
  have C: "chains (step (GatheringChanged 0 GatherComplete) ?c) 0 = AwaitFetch ?o"
    "chains (step (GatheringChanged 0 Gathering) ?c) 0 = AwaitGathering"
    using c g gathering_wait [of ?c 0 0 ?o Gathering 0] by blast+
  have D: "chains (step (GatheringChanged 0 GatherComplete) ?d) 0 = AwaitGathering"
    using d gathering_wait [of ?d 1 0 ?o GatherComplete 1] gathering_wait [of ?d 0 0 ?o GatherComplete 1]
    by blast
  show ?thesis
    unfolding r using a b c d g A B C D by blast
qed

section \<open>Failure of a negotiation step\<close>

text \<open>
  C2 as stated does not hold for the gathering wait. The promise of the wait is built
  with \<open>resolve\<close> only, and \<open>checkState\<close> runs as an event listener, outside the
  promise chain. Here the user clicks Stop and Start while the first run waits, and
  the deferred close sets \<open>pc\<close> to null. The first connection was not closed (the
  deferred close closed the second one); when its gathering completes, \<open>checkState\<close>
  dereferences null. The exception is uncaught: the \<open>catch\<close> handler does not run,
  nothing is logged or alerted, no teardown is triggered, and the run stays suspended.
\<close>

theorem gathering_listener_failure_is_uncaught:
  "chains (run [ClickStart, OfferSettled 0 (Inr \<lparr>sdp_kind = Offer, sdp = ''v=0''\<rparr>),
                LocalSettled 0 None, ClickStop, ClickStart, TimeoutFired] init) 0 = AwaitGathering
   \<and> pc (run [ClickStart, OfferSettled 0 (Inr \<lparr>sdp_kind = Offer, sdp = ''v=0''\<rparr>),
               LocalSettled 0 None, ClickStop, ClickStart, TimeoutFired] init) = None
   \<and> live_pc 0 (run [ClickStart, OfferSettled 0 (Inr \<lparr>sdp_kind = Offer, sdp = ''v=0''\<rparr>),
                      LocalSettled 0 None, ClickStop, ClickStart, TimeoutFired] init)
   \<and> handlers_for
        (pcs (run [ClickStart, OfferSettled 0 (Inr \<lparr>sdp_kind = Offer, sdp = ''v=0''\<rparr>),
                   LocalSettled 0 None, ClickStop, ClickStart, TimeoutFired] init) 0)
        IceGatheringStateChange = [CheckState 0]
   \<and> run [ClickStart, OfferSettled 0 (Inr \<lparr>sdp_kind = Offer, sdp = ''v=0''\<rparr>),
           LocalSettled 0 None, ClickStop, ClickStart, TimeoutFired,
           GatheringChanged 0 GatherComplete] init
       = throw null_deref
           (update_pc 0 (\<lambda>obj. obj\<lparr>iceGatheringState := GatherComplete\<rparr>)
              (run [ClickStart, OfferSettled 0 (Inr \<lparr>sdp_kind = Offer, sdp = ''v=0''\<rparr>),
                    LocalSettled 0 None, ClickStop, ClickStart, TimeoutFired] init))
   \<and> chains (run [ClickStart, OfferSettled 0 (Inr \<lparr>sdp_kind = Offer, sdp = ''v=0''\<rparr>),
                   LocalSettled 0 None, ClickStop, ClickStart, TimeoutFired,
                   GatheringChanged 0 GatherComplete] init) 0 = AwaitGathering
   \<and> uncaught (run [ClickStart, OfferSettled 0 (Inr \<lparr>sdp_kind = Offer, sdp = ''v=0''\<rparr>),
                     LocalSettled 0 None, ClickStop, ClickStart, TimeoutFired,
                     GatheringChanged 0 GatherComplete] init) = [null_deref]
   \<and> alerts (run [ClickStart, OfferSettled 0 (Inr \<lparr>sdp_kind = Offer, sdp = ''v=0''\<rparr>),
                   LocalSettled 0 None, ClickStop, ClickStart, TimeoutFired,
                   GatheringChanged 0 GatherComplete] init) = []
   \<and> NegotiationFailed 0
        \<notin> set (trace (run [ClickStart, OfferSettled 0 (Inr \<lparr>sdp_kind = Offer, sdp = ''v=0''\<rparr>),
                             LocalSettled 0 None, ClickStop, ClickStart, TimeoutFired,
                             GatheringChanged 0 GatherComplete] init))"
proof -
  let ?s = "run [ClickStart, OfferSettled 0 (Inr \<lparr>sdp_kind = Offer, sdp = ''v=0''\<rparr>),
                 LocalSettled 0 None, ClickStop, ClickStart, TimeoutFired] init"
  have 1: "chains ?s 0 = AwaitGathering" "pc ?s = None" "live_pc 0 ?s"
    "handlers_for (pcs ?s 0) IceGatheringStateChange = [CheckState 0]"
    "uncaught ?s = []" "alerts ?s = []" "NegotiationFailed 0 \<notin> set (trace ?s)"
    by (simp_all add: eval_simps)
  have 2: "step (GatheringChanged 0 GatherComplete) ?s
            = throw null_deref
                (update_pc 0 (\<lambda>obj. obj\<lparr>iceGatheringState := GatherComplete\<rparr>) ?s)"
    using 1(2,3,4)
    by (simp add: dispatch_def run_listener_def checkState_def handlers_for_def update_pc_def
          throw_def del: run.simps)
  have 3: "run [ClickStart, OfferSettled 0 (Inr \<lparr>sdp_kind = Offer, sdp = ''v=0''\<rparr>),
                LocalSettled 0 None, ClickStop, ClickStart, TimeoutFired,
                GatheringChanged 0 GatherComplete] init
            = step (GatheringChanged 0 GatherComplete) ?s"
    by simp
  have 4: "chains (step (GatheringChanged 0 GatherComplete) ?s) 0 = AwaitGathering"
    "uncaught (step (GatheringChanged 0 GatherComplete) ?s) = [null_deref]"
    "alerts (step (GatheringChanged 0 GatherComplete) ?s) = []"
    "NegotiationFailed 0 \<notin> set (trace (step (GatheringChanged 0 GatherComplete) ?s))"
    unfolding 2 using 1 by (simp_all add: throw_def update_pc_def del: run.simps)
  show ?thesis
    unfolding 3 using 1 2 4 by blast
qed

text \<open>
  C2, amended. Every rejection of a promise the chain of \<open>negotiate\<close> awaits
  (\<open>createOffer\<close>, \<open>setLocalDescription\<close>, \<open>fetch\<close>, \<open>response.json()\<close>,
  \<open>setRemoteDescription\<close>) and every exception thrown in a callback of the chain
  (\<open>pc\<close> is null, or it has no local description when the request is built) ends in
  the \<open>catch\<close> handler. The handler marks the run failed, logs the error, shows it in
  an alert and runs \<open>stop\<close>, so the keepalive handle, the channel and the video stream
  are released and, when a connection is present, its deferred close is scheduled. No
  new negotiation is started, and a failed run ignores every later settlement: there
  is no retry. The gathering wait is the exception: when \<open>checkState\<close> finds \<open>pc\<close> null
  it throws outside the chain; the exception is uncaught and changes nothing else.
\<close>

theorem negotiation_failure_aborts:
  "(chains s c = AwaitCreateOffer p \<longrightarrow> offer_settled c (Inl e) s = neg_catch c e s)
   \<and> (chains s c = AwaitSetLocal p offer \<longrightarrow> local_settled c (Some e) s = neg_catch c e s)
   \<and> (chains s c = AwaitFetch offer \<longrightarrow> fetch_settled c (Inl e) s = neg_catch c e s)
   \<and> (chains s c = AwaitJson r \<and> body r = Unparsable \<longrightarrow>
         json_settled c s = neg_catch c json_syntax s)
   \<and> (chains s c = AwaitSetRemote p answer \<longrightarrow> remote_settled c (Some e) s = neg_catch c e s)
   \<and> (pc s = None \<longrightarrow>
         then_offer c offer s = neg_catch c null_deref (log ''Offer creation successful'' s)
         \<and> then_local c s = neg_catch c null_deref (log ''Local Description setting successful'' s)
         \<and> then_gathered c s =
             neg_catch c null_deref (log ''ICE gathering complete, sending Offer to server'' s)
         \<and> then_answer c answer s = neg_catch c null_deref (log ''Answer setting started'' s)
         \<and> checkState c s = throw null_deref s)
   \<and> (pc s = Some p \<and> localDescription (pcs s p) = None \<longrightarrow>
         then_gathered c s =
           neg_catch c null_deref (log ''ICE gathering complete, sending Offer to server'' s))
   \<and> throw e s = s\<lparr>uncaught := uncaught s @ [e]\<rparr>
   \<and> neg_catch c e s =
         stop (alert (''Negotiation failed: '' @ error_text e)
                (log (''Negotiation failed: '' @ error_text e)
                   (called (NegotiationFailed c) (s\<lparr>chains := (chains s)(c := NegFailed)\<rparr>))))
   \<and> chains (neg_catch c e s) c = NegFailed
   \<and> alerts (neg_catch c e s) = alerts s @ [''Negotiation failed: '' @ error_text e]
   \<and> dcInterval (neg_catch c e s) = None \<and> dc (neg_catch c e s) = None
   \<and> video_srcObject (neg_catch c e s) = None
   \<and> (pc s \<noteq> None \<longrightarrow> pending_closes (neg_catch c e s) = Suc (pending_closes s))
   \<and> next_chain (neg_catch c e s) = next_chain s
   \<and> (chains s c = NegFailed \<longrightarrow>
         offer_settled c r1 s = s \<and> local_settled c r2 s = s \<and> fetch_settled c r3 s = s
         \<and> json_settled c s = s \<and> remote_settled c r2 s = s
         \<and> chains (checkState c s) c = NegFailed)"
proof -
  have settle:
    "chains s c = AwaitCreateOffer p \<longrightarrow> offer_settled c (Inl e) s = neg_catch c e s"
    "chains s c = AwaitSetLocal p offer \<longrightarrow> local_settled c (Some e) s = neg_catch c e s"
    "chains s c = AwaitFetch offer \<longrightarrow> fetch_settled c (Inl e) s = neg_catch c e s"
    "chains s c = AwaitJson r \<and> body r = Unparsable \<longrightarrow> json_settled c s = neg_catch c json_syntax s"
    "chains s c = AwaitSetRemote p answer \<longrightarrow> remote_settled c (Some e) s = neg_catch c e s"
    by (simp_all add: offer_settled_def local_settled_def fetch_settled_def json_settled_def
          remote_settled_def)
  have thrown: "pc s = None \<longrightarrow>
         then_offer c offer s = neg_catch c null_deref (log ''Offer creation successful'' s)
         \<and> then_local c s = neg_catch c null_deref (log ''Local Description setting successful'' s)
         \<and> then_gathered c s =
             neg_catch c null_deref (log ''ICE gathering complete, sending Offer to server'' s)
         \<and> then_answer c answer s = neg_catch c null_deref (log ''Answer setting started'' s)
         \<and> checkState c s = throw null_deref s"
    by (simp add: then_offer_def then_local_def then_gathered_def then_answer_def checkState_def
          log_def called_def Let_def)
  have undescribed: "pc s = Some p \<and> localDescription (pcs s p) = None \<longrightarrow>
         then_gathered c s =
           neg_catch c null_deref (log ''ICE gathering complete, sending Offer to server'' s)"
    by (simp add: then_gathered_def log_def Let_def)
  have uncaught: "throw e s = s\<lparr>uncaught := uncaught s @ [e]\<rparr>"
    by (simp add: throw_def)
  have handler: "neg_catch c e s =
         stop (alert (''Negotiation failed: '' @ error_text e)
                (log (''Negotiation failed: '' @ error_text e)
                   (called (NegotiationFailed c) (s\<lparr>chains := (chains s)(c := NegFailed)\<rparr>))))"
    by (simp add: neg_catch_def Let_def)
  have effect: "chains (neg_catch c e s) c = NegFailed"
    "alerts (neg_catch c e s) = alerts s @ [''Negotiation failed: '' @ error_text e]"
    "dcInterval (neg_catch c e s) = None" "dc (neg_catch c e s) = None"
    "video_srcObject (neg_catch c e s) = None"
    "pc s \<noteq> None \<longrightarrow> pending_closes (neg_catch c e s) = Suc (pending_closes s)"
    "next_chain (neg_catch c e s) = next_chain s"
    by (simp_all add: neg_catch_fields)
  have ignored: "chains s c = NegFailed \<longrightarrow>
         offer_settled c r1 s = s \<and> local_settled c r2 s = s \<and> fetch_settled c r3 s = s
         \<and> json_settled c s = s \<and> remote_settled c r2 s = s
         \<and> chains (checkState c s) c = NegFailed"
    by (simp add: offer_settled_def local_settled_def fetch_settled_def json_settled_def
          remote_settled_def checkState_def removeEventListener_def update_pc_def throw_def
          split: option.splits)
  show ?thesis
    using settle thrown undescribed uncaught handler effect ignored by blast
qed

lemma negotiation_stages:
  "chains (run [ClickStart] init) 0 = AwaitCreateOffer 0"
  "pc (run [ClickStart] init) = Some 0"
  "chains (run [ClickStart, OfferSettled 0 (Inr \<lparr>sdp_kind = Offer, sdp = ''v=0''\<rparr>)] init) 0
     = AwaitSetLocal 0 \<lparr>sdp_kind = Offer, sdp = ''v=0''\<rparr>"
  "chains (run [ClickStart, OfferSettled 0 (Inr \<lparr>sdp_kind = Offer, sdp = ''v=0''\<rparr>),
                LocalSettled 0 None, GatheringChanged 0 GatherComplete] init) 0
     = AwaitFetch \<lparr>sdp_kind = Offer, sdp = ''v=0''\<rparr>"
  "chains (run [ClickStart, OfferSettled 0 (Inr \<lparr>sdp_kind = Offer, sdp = ''v=0''\<rparr>),
                LocalSettled 0 None, GatheringChanged 0 GatherComplete,
                FetchSettled 0 (Inr \<lparr>status = 200, body = Unparsable\<rparr>)] init) 0
     = AwaitJson \<lparr>status = 200, body = Unparsable\<rparr>"
  "chains (run [ClickStart, OfferSettled 0 (Inr \<lparr>sdp_kind = Offer, sdp = ''v=0''\<rparr>),
                LocalSettled 0 None, GatheringChanged 0 GatherComplete,
                FetchSettled 0 (Inr \<lparr>status = 200,
                  body = JsonDescription \<lparr>sdp_kind = Answer, sdp = ''v=0''\<rparr>\<rparr>),
                JsonSettled 0] init) 0
     = AwaitSetRemote 0 (JsonDescription \<lparr>sdp_kind = Answer, sdp = ''v=0''\<rparr>)"
  "chains (run [ClickStart, OfferSettled 0 (Inl (JsError ''OperationError'' ''x''))] init) 0
     = NegFailed"
  by (simp_all add: eval_simps)

theorem negotiation_failure_aborts_witness:
  "chains (run [ClickStart] init) 0 = AwaitCreateOffer 0
   \<and> alerts (offer_settled 0 (Inl (JsError ''OperationError'' ''x'')) (run [ClickStart] init))
       = alerts (run [ClickStart] init) @ [''Negotiation failed: OperationError: x'']
   \<and> pending_closes (offer_settled 0 (Inl (JsError ''OperationError'' ''x'')) (run [ClickStart] init))
       = Suc (pending_closes (run [ClickStart] init))
   \<and> local_settled 0 (Some (JsError ''OperationError'' ''x''))
        (run [ClickStart, OfferSettled 0 (Inr \<lparr>sdp_kind = Offer, sdp = ''v=0''\<rparr>)] init)
       = neg_catch 0 (JsError ''OperationError'' ''x'')
        (run [ClickStart, OfferSettled 0 (Inr \<lparr>sdp_kind = Offer, sdp = ''v=0''\<rparr>)] init)
   \<and> fetch_settled 0 (Inl (JsError ''TypeError'' ''Failed to fetch''))
        (run [ClickStart, OfferSettled 0 (Inr \<lparr>sdp_kind = Offer, sdp = ''v=0''\<rparr>),
              LocalSettled 0 None, GatheringChanged 0 GatherComplete] init)
       = neg_catch 0 (JsError ''TypeError'' ''Failed to fetch'')
        (run [ClickStart, OfferSettled 0 (Inr \<lparr>sdp_kind = Offer, sdp = ''v=0''\<rparr>),
              LocalSettled 0 None, GatheringChanged 0 GatherComplete] init)
   \<and> json_settled 0
        (run [ClickStart, OfferSettled 0 (Inr \<lparr>sdp_kind = Offer, sdp = ''v=0''\<rparr>),
              LocalSettled 0 None, GatheringChanged 0 GatherComplete,
              FetchSettled 0 (Inr \<lparr>status = 200, body = Unparsable\<rparr>)] init)
       = neg_catch 0 json_syntax
        (run [ClickStart, OfferSettled 0 (Inr \<lparr>sdp_kind = Offer, sdp = ''v=0''\<rparr>),
              LocalSettled 0 None, GatheringChanged 0 GatherComplete,
              FetchSettled 0 (Inr \<lparr>status = 200, body = Unparsable\<rparr>)] init)
   \<and> remote_settled 0 (Some (JsError ''InvalidAccessError'' ''x''))
        (run [ClickStart, OfferSettled 0 (Inr \<lparr>sdp_kind = Offer, sdp = ''v=0''\<rparr>),
              LocalSettled 0 None, GatheringChanged 0 GatherComplete,
              FetchSettled 0 (Inr \<lparr>status = 200,
                body = JsonDescription \<lparr>sdp_kind = Answer, sdp = ''v=0''\<rparr>\<rparr>),
              JsonSettled 0] init)
       = neg_catch 0 (JsError ''InvalidAccessError'' ''x'')
        (run [ClickStart, OfferSettled 0 (Inr \<lparr>sdp_kind = Offer, sdp = ''v=0''\<rparr>),
              LocalSettled 0 None, GatheringChanged 0 GatherComplete,
              FetchSettled 0 (Inr \<lparr>status = 200,
                body = JsonDescription \<lparr>sdp_kind = Answer, sdp = ''v=0''\<rparr>\<rparr>),
              JsonSettled 0] init)
   \<and> pc init = None
   \<and> then_local 0 init = neg_catch 0 null_deref (log ''Local Description setting successful'' init)
   \<and> checkState 0 init = throw null_deref init
   \<and> localDescription (pcs (run [ClickStart] init) 0) = None
   \<and> then_gathered 0 (run [ClickStart] init)
       = neg_catch 0 null_deref
           (log ''ICE gathering complete, sending Offer to server'' (run [ClickStart] init))
   \<and> chains (run [ClickStart, OfferSettled 0 (Inl (JsError ''OperationError'' ''x''))] init) 0
       = NegFailed
   \<and> local_settled 0 None
        (run [ClickStart, OfferSettled 0 (Inl (JsError ''OperationError'' ''x''))] init)
       = run [ClickStart, OfferSettled 0 (Inl (JsError ''OperationError'' ''x''))] init"
proof -
  let ?e = "JsError ''OperationError'' ''x''"
  let ?o = "\<lparr>sdp_kind = Offer, sdp = ''v=0''\<rparr>"
  let ?a = "JsonDescription \<lparr>sdp_kind = Answer, sdp = ''v=0''\<rparr>"
  let ?s1 = "run [ClickStart] init"
  let ?s2 = "run [ClickStart, OfferSettled 0 (Inr ?o)] init"
  let ?s3 = "run [ClickStart, OfferSettled 0 (Inr ?o), LocalSettled 0 None,
                  GatheringChanged 0 GatherComplete] init"
  let ?s4 = "run [ClickStart, OfferSettled 0 (Inr ?o), LocalSettled 0 None,
                  GatheringChanged 0 GatherComplete,
                  FetchSettled 0 (Inr \<lparr>status = 200, body = Unparsable\<rparr>)] init"
  let ?s5 = "run [ClickStart, OfferSettled 0 (Inr ?o), LocalSettled 0 None,
                  GatheringChanged 0 GatherComplete,
                  FetchSettled 0 (Inr \<lparr>status = 200, body = ?a\<rparr>), JsonSettled 0] init"
  let ?s6 = "run [ClickStart, OfferSettled 0 (Inl ?e)] init"
  note st = negotiation_stages
  have u: "body \<lparr>status = 200, body = Unparsable\<rparr> = Unparsable" by simp
  have n: "pc init = None" by (simp add: init_def)
  have m: "''Negotiation failed: '' @ error_text ?e = ''Negotiation failed: OperationError: x''"
    by simp
  note T = negotiation_failure_aborts [of ?s1 0 0 ?e]
  have A: "offer_settled 0 (Inl ?e) ?s1 = neg_catch 0 ?e ?s1"
    using st(1) T by blast
  have B: "alerts (neg_catch 0 ?e ?s1) = alerts ?s1 @ [''Negotiation failed: '' @ error_text ?e]"
    using T by blast
  have C: "pending_closes (neg_catch 0 ?e ?s1) = Suc (pending_closes ?s1)"
    using st(2) T by blast
  have 1: "alerts (offer_settled 0 (Inl ?e) ?s1) = alerts ?s1 @ [''Negotiation failed: '' @ error_text ?e]"
    "pending_closes (offer_settled 0 (Inl ?e) ?s1) = Suc (pending_closes ?s1)"
    by (simp_all only: A B C)
  have 2: "local_settled 0 (Some ?e) ?s2 = neg_catch 0 ?e ?s2"
    using st(3) negotiation_failure_aborts [of ?s2 0 0 ?e ?o] by blast
  have 3: "fetch_settled 0 (Inl (JsError ''TypeError'' ''Failed to fetch'')) ?s3
            = neg_catch 0 (JsError ''TypeError'' ''Failed to fetch'') ?s3"
    using st(4) negotiation_failure_aborts [of ?s3 0 0 "JsError ''TypeError'' ''Failed to fetch''" ?o]
    by blast
  have 4: "json_settled 0 ?s4 = neg_catch 0 json_syntax ?s4"
    using st(5) u
      negotiation_failure_aborts [of ?s4 0 0 ?e ?o "\<lparr>status = 200, body = Unparsable\<rparr>"]
    by blast
  have 5: "remote_settled 0 (Some (JsError ''InvalidAccessError'' ''x'')) ?s5
            = neg_catch 0 (JsError ''InvalidAccessError'' ''x'') ?s5"
    using st(6)
      negotiation_failure_aborts [of ?s5 0 0 "JsError ''InvalidAccessError'' ''x''" ?o _ ?a]
    by blast
  have 6: "then_local 0 init = neg_catch 0 null_deref (log ''Local Description setting successful'' init)"
    using n negotiation_failure_aborts [of init 0] by blast
  have 7: "local_settled 0 None ?s6 = ?s6"
    using st(7) negotiation_failure_aborts [of ?s6 0 _ _ _ _ _ _ None] by blast
  have 8: "checkState 0 init = throw null_deref init"
    using n negotiation_failure_aborts [of init 0] by blast
  have l: "localDescription (pcs ?s1 0) = None" by (simp add: eval_simps)
  have 9: "then_gathered 0 ?s1
            = neg_catch 0 null_deref (log ''ICE gathering complete, sending Offer to server'' ?s1)"
    using st(2) l negotiation_failure_aborts [of ?s1 0 0] by blast
  show ?thesis
    using st(1,7) n l 1 2 3 4 5 6 7 8 9 unfolding m by blast
qed

section \<open>The signaling response\<close>

text \<open>
  C4 as stated does not hold: the callback that receives the response never looks at
  its status. A response with status 500 whose body is a session description goes
  through \<open>response.json()\<close> and \<open>setRemoteDescription\<close> like any other; the negotiation
  succeeds, the description is applied, and nothing is reported.
\<close>

theorem non_success_response_is_applied:
  "\<not> response_ok \<lparr>status = 500, body = JsonDescription \<lparr>sdp_kind = Answer, sdp = ''v=0''\<rparr>\<rparr>
   \<and> chains (run [ClickStart, OfferSettled 0 (Inr \<lparr>sdp_kind = Offer, sdp = ''v=0''\<rparr>),
                   LocalSettled 0 None, GatheringChanged 0 GatherComplete,
                   FetchSettled 0 (Inr \<lparr>status = 500,
                     body = JsonDescription \<lparr>sdp_kind = Answer, sdp = ''v=0''\<rparr>\<rparr>),
                   JsonSettled 0, RemoteSettled 0 None] init) 0 = NegDone
   \<and> remoteDescription
        (pcs (run [ClickStart, OfferSettled 0 (Inr \<lparr>sdp_kind = Offer, sdp = ''v=0''\<rparr>),
                   LocalSettled 0 None, GatheringChanged 0 GatherComplete,
                   FetchSettled 0 (Inr \<lparr>status = 500,
                     body = JsonDescription \<lparr>sdp_kind = Answer, sdp = ''v=0''\<rparr>\<rparr>),
                   JsonSettled 0, RemoteSettled 0 None] init) 0)
       = Some \<lparr>sdp_kind = Answer, sdp = ''v=0''\<rparr>
   \<and> alerts (run [ClickStart, OfferSettled 0 (Inr \<lparr>sdp_kind = Offer, sdp = ''v=0''\<rparr>),
                   LocalSettled 0 None, GatheringChanged 0 GatherComplete,
                   FetchSettled 0 (Inr \<lparr>status = 500,
                     body = JsonDescription \<lparr>sdp_kind = Answer, sdp = ''v=0''\<rparr>\<rparr>),
                   JsonSettled 0, RemoteSettled 0 None] init) = []"
  by (simp add: eval_simps response_ok_def)

text \<open>
  C4, amended. An unparsable response body fails the negotiation: \<open>response.json()\<close>
  rejects and the rejection reaches the \<open>catch\<close> handler. A body that parses is handed
  to \<open>setRemoteDescription\<close> whatever the status of the response: replacing the status
  of the awaited response by any other changes nothing. The remote description of a
  connection changes only when the parsed body is a session description and
  \<open>setRemoteDescription\<close> on that connection is fulfilled.
\<close>

theorem signaling_response_handling:
  "(chains s c = AwaitJson r \<and> body r = Unparsable \<longrightarrow>
      json_settled c s = neg_catch c json_syntax s)
   \<and> (chains s c = AwaitJson r \<and> body r \<noteq> Unparsable \<and> pc s = Some p \<longrightarrow>
      json_settled c s =
        called (SetRemoteCall c p)
          ((log ''Answer setting started'' s)\<lparr>chains := (chains s)(c := AwaitSetRemote p (body r))\<rparr>))
   \<and> (chains s c = AwaitJson r \<longrightarrow>
      json_settled c (s\<lparr>chains := (chains s)(c := AwaitJson (r\<lparr>status := n\<rparr>))\<rparr>) = json_settled c s)
   \<and> (remoteDescription (pcs (remote_settled c res s) q) \<noteq> remoteDescription (pcs s q) \<longrightarrow>
      (\<exists>d. chains s c = AwaitSetRemote q (JsonDescription d) \<and> res = None))"
proof (intro conjI impI)
  assume "chains s c = AwaitJson r \<and> body r = Unparsable"
  then show "json_settled c s = neg_catch c json_syntax s"
    by (simp add: json_settled_def)
next
  assume "chains s c = AwaitJson r \<and> body r \<noteq> Unparsable \<and> pc s = Some p"
  then show "json_settled c s =
        called (SetRemoteCall c p)
          ((log ''Answer setting started'' s)\<lparr>chains := (chains s)(c := AwaitSetRemote p (body r))\<rparr>)"
    by (cases "body r") (simp_all add: json_settled_def then_answer_def log_def called_def Let_def)
next
  assume a: "chains s c = AwaitJson r"
  show "json_settled c (s\<lparr>chains := (chains s)(c := AwaitJson (r\<lparr>status := n\<rparr>))\<rparr>) = json_settled c s"
  proof (cases "pc s")
    case None
    with a show ?thesis
      by (cases "body r")
         (simp_all add: json_settled_def then_answer_def neg_catch_eq log_def called_def Let_def)
  next
    case (Some p)
    with a show ?thesis
      by (cases "body r")
         (simp_all add: json_settled_def then_answer_def neg_catch_eq log_def called_def Let_def)
  qed
next
  assume a: "remoteDescription (pcs (remote_settled c res s) q) \<noteq> remoteDescription (pcs s q)"
  show "\<exists>d. chains s c = AwaitSetRemote q (JsonDescription d) \<and> res = None"
  proof (rule ccontr)
    assume n: "\<not> (\<exists>d. chains s c = AwaitSetRemote q (JsonDescription d) \<and> res = None)"
    have "remoteDescription (pcs (remote_settled c res s) q) = remoteDescription (pcs s q)"
      using n
      by (auto simp: remote_settled_def then_remote_def neg_catch_pc_object update_pc_def
            log_def called_def Let_def split: neg_stage.splits option.splits json_body.splits)
    with a show False by simp
  qed
qed

theorem signaling_response_handling_witness:
  "chains (run [ClickStart, OfferSettled 0 (Inr \<lparr>sdp_kind = Offer, sdp = ''v=0''\<rparr>),
                LocalSettled 0 None, GatheringChanged 0 GatherComplete,
                FetchSettled 0 (Inr \<lparr>status = 200, body = Unparsable\<rparr>)] init) 0
     = AwaitJson \<lparr>status = 200, body = Unparsable\<rparr>
   \<and> json_settled 0
        (run [ClickStart, OfferSettled 0 (Inr \<lparr>sdp_kind = Offer, sdp = ''v=0''\<rparr>),
              LocalSettled 0 None, GatheringChanged 0 GatherComplete,
              FetchSettled 0 (Inr \<lparr>status = 200, body = Unparsable\<rparr>)] init)
       = neg_catch 0 json_syntax
        (run [ClickStart, OfferSettled 0 (Inr \<lparr>sdp_kind = Offer, sdp = ''v=0''\<rparr>),
              LocalSettled 0 None, GatheringChanged 0 GatherComplete,
              FetchSettled 0 (Inr \<lparr>status = 200, body = Unparsable\<rparr>)] init)
   \<and> chains (run [ClickStart, OfferSettled 0 (Inr \<lparr>sdp_kind = Offer, sdp = ''v=0''\<rparr>),
                LocalSettled 0 None, GatheringChanged 0 GatherComplete,
                FetchSettled 0 (Inr \<lparr>status = 500,
                  body = JsonDescription \<lparr>sdp_kind = Answer, sdp = ''v=0''\<rparr>\<rparr>)] init) 0
     = AwaitJson \<lparr>status = 500, body = JsonDescription \<lparr>sdp_kind = Answer, sdp = ''v=0''\<rparr>\<rparr>
   \<and> chains (json_settled 0
        (run [ClickStart, OfferSettled 0 (Inr \<lparr>sdp_kind = Offer, sdp = ''v=0''\<rparr>),
              LocalSettled 0 None, GatheringChanged 0 GatherComplete,
              FetchSettled 0 (Inr \<lparr>status = 500,
                body = JsonDescription \<lparr>sdp_kind = Answer, sdp = ''v=0''\<rparr>\<rparr>)] init)) 0
     = AwaitSetRemote 0 (JsonDescription \<lparr>sdp_kind = Answer, sdp = ''v=0''\<rparr>)
   \<and> remoteDescription (pcs (remote_settled 0 None (json_settled 0
        (run [ClickStart, OfferSettled 0 (Inr \<lparr>sdp_kind = Offer, sdp = ''v=0''\<rparr>),
              LocalSettled 0 None, GatheringChanged 0 GatherComplete,
              FetchSettled 0 (Inr \<lparr>status = 500,
                body = JsonDescription \<lparr>sdp_kind = Answer, sdp = ''v=0''\<rparr>\<rparr>)] init))) 0)
     \<noteq> remoteDescription (pcs (json_settled 0
        (run [ClickStart, OfferSettled 0 (Inr \<lparr>sdp_kind = Offer, sdp = ''v=0''\<rparr>),
              LocalSettled 0 None, GatheringChanged 0 GatherComplete,
              FetchSettled 0 (Inr \<lparr>status = 500,
                body = JsonDescription \<lparr>sdp_kind = Answer, sdp = ''v=0''\<rparr>\<rparr>)] init)) 0)
   \<and> json_settled 0
        ((run [ClickStart, OfferSettled 0 (Inr \<lparr>sdp_kind = Offer, sdp = ''v=0''\<rparr>),
               LocalSettled 0 None, GatheringChanged 0 GatherComplete,
               FetchSettled 0 (Inr \<lparr>status = 500,
                 body = JsonDescription \<lparr>sdp_kind = Answer, sdp = ''v=0''\<rparr>\<rparr>)] init)
         \<lparr>chains :=
            (chains (run [ClickStart, OfferSettled 0 (Inr \<lparr>sdp_kind = Offer, sdp = ''v=0''\<rparr>),
               LocalSettled 0 None, GatheringChanged 0 GatherComplete,
               FetchSettled 0 (Inr \<lparr>status = 500,
                 body = JsonDescription \<lparr>sdp_kind = Answer, sdp = ''v=0''\<rparr>\<rparr>)] init))
            (0 := AwaitJson (\<lparr>status = 500,
                 body = JsonDescription \<lparr>sdp_kind = Answer, sdp = ''v=0''\<rparr>\<rparr>\<lparr>status := 200\<rparr>))\<rparr>)
       = json_settled 0
        (run [ClickStart, OfferSettled 0 (Inr \<lparr>sdp_kind = Offer, sdp = ''v=0''\<rparr>),
              LocalSettled 0 None, GatheringChanged 0 GatherComplete,
              FetchSettled 0 (Inr \<lparr>status = 500,
                body = JsonDescription \<lparr>sdp_kind = Answer, sdp = ''v=0''\<rparr>\<rparr>)] init)
   \<and> (\<exists>d. chains (json_settled 0
        (run [ClickStart, OfferSettled 0 (Inr \<lparr>sdp_kind = Offer, sdp = ''v=0''\<rparr>),
              LocalSettled 0 None, GatheringChanged 0 GatherComplete,
              FetchSettled 0 (Inr \<lparr>status = 500,
                body = JsonDescription \<lparr>sdp_kind = Answer, sdp = ''v=0''\<rparr>\<rparr>)] init)) 0
         = AwaitSetRemote 0 (JsonDescription d))"
proof -
  let ?o = "\<lparr>sdp_kind = Offer, sdp = ''v=0''\<rparr>"
  let ?a = "\<lparr>sdp_kind = Answer, sdp = ''v=0''\<rparr>"
  let ?u = "\<lparr>status = 200, body = Unparsable\<rparr>"
  let ?r = "\<lparr>status = 500, body = JsonDescription ?a\<rparr>"
  let ?s4 = "run [ClickStart, OfferSettled 0 (Inr ?o), LocalSettled 0 None,
                  GatheringChanged 0 GatherComplete, FetchSettled 0 (Inr ?u)] init"
  let ?s5 = "run [ClickStart, OfferSettled 0 (Inr ?o), LocalSettled 0 None,
                  GatheringChanged 0 GatherComplete, FetchSettled 0 (Inr ?r)] init"
  have h4: "chains ?s4 0 = AwaitJson ?u" "body ?u = Unparsable"
    by (simp_all add: eval_simps)
  have h5: "chains ?s5 0 = AwaitJson ?r" "body ?r \<noteq> Unparsable" "pc ?s5 = Some 0"
    "body ?r = JsonDescription ?a"
    by (simp_all add: eval_simps)
  have 1: "json_settled 0 ?s4 = neg_catch 0 json_syntax ?s4"
    using h4 signaling_response_handling [of ?s4 0 ?u] by blast
  have 2: "json_settled 0 ?s5 =
        called (SetRemoteCall 0 0)
          ((log ''Answer setting started'' ?s5)\<lparr>chains := (chains ?s5)(0 := AwaitSetRemote 0 (body ?r))\<rparr>)"
    using h5(1,2,3) signaling_response_handling [of ?s5 0 ?r 0] by blast
  have 3: "chains (json_settled 0 ?s5) 0 = AwaitSetRemote 0 (JsonDescription ?a)"
    unfolding 2 by (simp add: called_def log_def)
  have 4: "remoteDescription (pcs (remote_settled 0 None (json_settled 0 ?s5)) 0)
            \<noteq> remoteDescription (pcs (json_settled 0 ?s5) 0)"
    by (simp add: eval_simps)
  have 5: "json_settled 0 (?s5\<lparr>chains := (chains ?s5)(0 := AwaitJson (?r\<lparr>status := 200\<rparr>))\<rparr>)
            = json_settled 0 ?s5"
    using h5(1) signaling_response_handling [of ?s5 0 ?r 0 200] by blast
  have 6: "\<exists>d. chains (json_settled 0 ?s5) 0 = AwaitSetRemote 0 (JsonDescription d)"
    using 4 signaling_response_handling [of "json_settled 0 ?s5" 0 ?r 0 200 None 0] by blast
  show ?thesis using h4(1) h5(1) 1 3 4 5 6 by blast
qed

section \<open>Repeated teardown\<close>

lemma resources_stop_cong:
  "resources t = resources t' \<Longrightarrow> resources (stop t) = resources (stop t')"
  by (simp add: resources_def stop_simps split: option.splits)

lemma resources_stop_stop: "resources (stop (stop s)) = resources (stop s)"
  by (simp add: resources_def stop_simps split: option.splits)

lemma resources_stop_many: "resources ((stop ^^ Suc n) s) = resources (stop s)"
proof (induction n)
  case 0
  show ?case by simp
next
  case (Suc n)
  have "resources ((stop ^^ Suc (Suc n)) s) = resources (stop ((stop ^^ Suc n) s))" by simp
  also have "\<dots> = resources (stop (stop s))" by (rule resources_stop_cong [OF Suc.IH])
  also have "\<dots> = resources (stop s)" by (rule resources_stop_stop)
  finally show ?case .
qed

lemma pending_stop_many:
  "pc s \<noteq> None \<Longrightarrow> pending_closes ((stop ^^ n) s) = pending_closes s + n"
  "pc ((stop ^^ n) s) = pc s"
  by (induction n) (simp_all add: stop_simps)

lemma timeouts_without_session:
  "pc s = None \<Longrightarrow> resources (run (replicate k TimeoutFired) s) = resources s"
proof (induction k arbitrary: s)
  case 0
  show ?case by simp
next
  case (Suc k)
  have "pc (step TimeoutFired s) = None" "resources (step TimeoutFired s) = resources s"
    using Suc.prems by (simp_all add: deferred_close_def resources_def)
  then show ?case using Suc.IH [of "step TimeoutFired s"] by simp
qed

lemma timeouts_with_session:
  assumes "pc s = Some p" and "0 < pending_closes s" and "0 < k"
  shows "resources (run (replicate k TimeoutFired) s) =
     ((dcInterval s, intervals s), (dc s, close_channels_of p (dcs s)),
      (None, (pcs s)(p := (pcs s p)\<lparr>is_closed := True, connectionState := ConnClosed\<rparr>)),
      video_srcObject s,
      (startButton_disabled s, requestFrameButton_disabled s, stopButton_disabled s))"
proof -
  obtain j where k: "k = Suc j" using assms(3) by (cases k) simp_all
  let ?s1 = "step TimeoutFired s"
  have 1: "pc ?s1 = None"
    using assms by (simp add: deferred_close_def pc_close_def update_pc_def called_def log_def)
  have 2: "resources ?s1 =
     ((dcInterval s, intervals s), (dc s, close_channels_of p (dcs s)),
      (None, (pcs s)(p := (pcs s p)\<lparr>is_closed := True, connectionState := ConnClosed\<rparr>)),
      video_srcObject s,
      (startButton_disabled s, requestFrameButton_disabled s, stopButton_disabled s))"
    using assms
    by (simp add: deferred_close_def pc_close_def update_pc_def called_def log_def resources_def)
  show ?thesis
    unfolding k using timeouts_without_session [OF 1, of j] 2 by simp
qed

lemma drain_after_stops:
  "resources (drain ((stop ^^ Suc n) s)) = resources (drain (stop s))"
proof (cases "pc s")
  case None
  then have "pc ((stop ^^ Suc n) s) = None" "pc (stop s) = None"
    using pending_stop_many(2) [where s = s and n = "Suc n"] by (simp_all add: stop_simps)
  then show ?thesis
    unfolding drain_def
    by (simp only: timeouts_without_session resources_stop_many)
next
  case (Some p)
  have a: "pc ((stop ^^ Suc n) s) = Some p" "0 < pending_closes ((stop ^^ Suc n) s)"
    using Some pending_stop_many [where s = s and n = "Suc n"] by simp_all
  have b: "pc (stop s) = Some p" "0 < pending_closes (stop s)"
    using Some by (simp_all add: stop_simps)
  have r: "resources ((stop ^^ Suc n) s) = resources (stop s)" by (rule resources_stop_many)
  show ?thesis
    unfolding drain_def
    using timeouts_with_session [OF a(1) a(2) a(2)] timeouts_with_session [OF b(1) b(2) b(2)] r
    by (simp add: resources_def)
qed

lemma drain_released:
  "pc (drain (stop s)) = None"
  "pc s = Some p \<Longrightarrow> is_closed (pcs (drain (stop s)) p)"
  "dcInterval (drain (stop s)) = None" "dc (drain (stop s)) = None"
  "video_srcObject (drain (stop s)) = None"
  "dcInterval s = Some t \<Longrightarrow> t \<notin> intervals (drain (stop s))"
proof -
  have "resources (drain (stop s)) =
      ((None, (case dcInterval s of None \<Rightarrow> intervals s | Some t \<Rightarrow> intervals s - {t})),
       (None, (case pc s of None \<Rightarrow> dcs (stop s)
               | Some p \<Rightarrow> close_channels_of p (dcs (stop s)))),
       (None, (case pc s of None \<Rightarrow> pcs (stop s)
               | Some p \<Rightarrow> (pcs (stop s))(p := (pcs (stop s) p)\<lparr>is_closed := True,
                                                     connectionState := ConnClosed\<rparr>))),
       None, (False, True, True))"
  proof (cases "pc s")
    case None
    then have "pc (stop s) = None" by (simp add: stop_simps)
    from timeouts_without_session [OF this] None show ?thesis
      unfolding drain_def by (simp add: resources_def stop_simps)
  next
    case (Some p)
    then have b: "pc (stop s) = Some p" "0 < pending_closes (stop s)"
      by (simp_all add: stop_simps)
    from timeouts_with_session [OF b(1) b(2) b(2)] Some show ?thesis
      unfolding drain_def by (simp add: stop_fields stop_intervals)
  qed
  then show "pc (drain (stop s)) = None"
    "pc s = Some p \<Longrightarrow> is_closed (pcs (drain (stop s)) p)"
    "dcInterval (drain (stop s)) = None" "dc (drain (stop s)) = None"
    "video_srcObject (drain (stop s)) = None"
    "dcInterval s = Some t \<Longrightarrow> t \<notin> intervals (drain (stop s))"
    by (auto simp: resources_def)
qed

text \<open>
  C6 as stated does not hold in its last part: a second teardown requested while the
  deferred close is pending is not a no-op. The test on \<open>pc\<close> that guards the close is
  made when the timeout fires, not when \<open>stop\<close> is called, so the second call schedules
  a second deferred close. Here the second teardown comes from a negotiation that
  fails after the user has clicked Stop. With one teardown, a session started after
  the deferred close has fired stays open; with two, the second deferred close
  closes it.
\<close>

theorem second_teardown_schedules_another_close:
  "pending_closes (run [ClickStart, ClickStop] init) = 1
   \<and> pending_closes (stop (run [ClickStart, ClickStop] init)) = 2
   \<and> pending_closes (run [ClickStart, ClickStop,
                           OfferSettled 0 (Inl (JsError ''OperationError'' ''x''))] init) = 2
   \<and> pc (run [ClickStart, ClickStop, TimeoutFired, ClickStart, TimeoutFired] init) = Some 1
   \<and> \<not> is_closed (pcs (run [ClickStart, ClickStop, TimeoutFired, ClickStart, TimeoutFired] init) 1)
   \<and> pc (run [ClickStart, ClickStop, OfferSettled 0 (Inl (JsError ''OperationError'' ''x'')),
               TimeoutFired, ClickStart, TimeoutFired] init) = None
   \<and> is_closed (pcs (run [ClickStart, ClickStop,
                            OfferSettled 0 (Inl (JsError ''OperationError'' ''x'')),
                            TimeoutFired, ClickStart, TimeoutFired] init) 1)"
  by (simp add: eval_simps)

text \<open>
  C6, amended. Teardown is idempotent on the resources: invoked \<open>n > 0\<close> times from any
  state it leaves the same resources as invoked once, and once every scheduled
  deferred close has fired the resources are again the same: no keepalive timer (the
  interval it named is cancelled), no channel reference, no connection reference, the
  connection closed, the video element without a stream. A second teardown requested
  while the deferred close is pending changes no resource, but it schedules one more
  deferred close; a deferred close that fires when \<open>pc\<close> is null does nothing.
\<close>

theorem teardown_idempotent_on_resources:
  "(0 < n \<longrightarrow> resources ((stop ^^ n) s) = resources (stop s)
               \<and> resources (drain ((stop ^^ n) s)) = resources (drain (stop s)))
   \<and> dcInterval (drain (stop s)) = None
   \<and> (dcInterval s = Some t \<longrightarrow> t \<notin> intervals (drain (stop s)))
   \<and> dc (drain (stop s)) = None
   \<and> pc (drain (stop s)) = None
   \<and> (pc s = Some p \<longrightarrow> is_closed (pcs (drain (stop s)) p))
   \<and> video_srcObject (drain (stop s)) = None
   \<and> (pc s \<noteq> None \<longrightarrow> pending_closes (stop (stop s)) = Suc (pending_closes (stop s)))
   \<and> (pc s = None \<longrightarrow> deferred_close s = s \<and> resources (step TimeoutFired s) = resources s)"
proof -
  have many: "0 < n \<longrightarrow> resources ((stop ^^ n) s) = resources (stop s)
               \<and> resources (drain ((stop ^^ n) s)) = resources (drain (stop s))"
  proof
    assume "0 < n"
    then obtain m where "n = Suc m" by (cases n) simp_all
    then show "resources ((stop ^^ n) s) = resources (stop s)
               \<and> resources (drain ((stop ^^ n) s)) = resources (drain (stop s))"
      using resources_stop_many [of m s] drain_after_stops [of m s] by simp
  qed
  have again: "pc s \<noteq> None \<longrightarrow> pending_closes (stop (stop s)) = Suc (pending_closes (stop s))"
    by (simp add: stop_simps)
  have absent: "pc s = None \<longrightarrow> deferred_close s = s \<and> resources (step TimeoutFired s) = resources s"
    by (simp add: deferred_close_def resources_def)
  show ?thesis
    using many again absent drain_released [of s] by blast
qed

theorem teardown_idempotent_on_resources_witness:
  "(0::nat) < 2 \<and> pc (run [ClickStart, ChannelOpened 0] init) = Some 0
   \<and> dcInterval (run [ClickStart, ChannelOpened 0] init) = Some 1
   \<and> resources ((stop ^^ 2) (run [ClickStart, ChannelOpened 0] init))
       = resources (stop (run [ClickStart, ChannelOpened 0] init))
   \<and> resources (drain ((stop ^^ 2) (run [ClickStart, ChannelOpened 0] init)))
       = resources (drain (stop (run [ClickStart, ChannelOpened 0] init)))
   \<and> is_closed (pcs (drain (stop (run [ClickStart, ChannelOpened 0] init))) 0)
   \<and> 1 \<notin> intervals (drain (stop (run [ClickStart, ChannelOpened 0] init)))
   \<and> pending_closes (stop (stop (run [ClickStart, ChannelOpened 0] init)))
       = Suc (pending_closes (stop (run [ClickStart, ChannelOpened 0] init)))
   \<and> pc init = None \<and> deferred_close init = init"
proof -
  let ?s = "run [ClickStart, ChannelOpened 0] init"
  have h: "(0::nat) < 2" "pc ?s = Some 0" "dcInterval ?s = Some 1" "pc ?s \<noteq> None"
    by (simp_all add: eval_simps)
  have n: "pc init = None" by (simp add: init_def)
  note T = teardown_idempotent_on_resources [of 2 ?s 1 0]
  have 1: "resources ((stop ^^ 2) ?s) = resources (stop ?s)"
    "resources (drain ((stop ^^ 2) ?s)) = resources (drain (stop ?s))"
    using h(1) T by blast+
  have 2: "is_closed (pcs (drain (stop ?s)) 0)" using h(2) T by blast
  have 3: "1 \<notin> intervals (drain (stop ?s))" using h(3) T by blast
  have 4: "pending_closes (stop (stop ?s)) = Suc (pending_closes (stop ?s))"
    using h(4) T by blast
  have 5: "deferred_close init = init"
    using n teardown_idempotent_on_resources [of 2 init 1 0] by blast
  show ?thesis using h(1,2,3) n 1 2 3 4 5 by blast
qed

section \<open>The keepalive handle\<close>

lemmas keepalive_defs = keepalive_ok_def handle_ok_def channels_ok_def channel_was_opened_def

lemma keepalive_ok_view: "chan_view s' = chan_view s \<Longrightarrow> keepalive_ok s' = keepalive_ok s"
  by (simp add: chan_view_def keepalive_defs cong: option.case_cong)

lemma keepalive_ok_frame:
  "keepalive_ok s \<Longrightarrow> dc s' = dc s \<Longrightarrow> dcInterval s' = dcInterval s
     \<Longrightarrow> intervals s' = intervals s \<Longrightarrow> dcs s' = dcs s
     \<Longrightarrow> startButton_disabled s' = startButton_disabled s \<Longrightarrow> keepalive_ok s'"
  using keepalive_ok_view [of s' s] by (simp add: chan_view_def)

lemma keepalive_ok_stop: "keepalive_ok s \<Longrightarrow> keepalive_ok (stop s)"
  by (auto simp: keepalive_defs stop_simps split: option.splits)

lemma keepalive_ok_neg_catch: "keepalive_ok s \<Longrightarrow> keepalive_ok (neg_catch c e s)"
proof -
  assume a: "keepalive_ok s"
  let ?s' = "s\<lparr>chains := (chains s)(c := NegFailed),
             trace := trace s @ [NegotiationFailed c],
             logs := logs s @ [''Negotiation failed: '' @ error_text e],
             alerts := alerts s @ [''Negotiation failed: '' @ error_text e]\<rparr>"
  have "chan_view ?s' = chan_view s" by (simp add: chan_view_def)
  then have "keepalive_ok ?s'" using a keepalive_ok_view by blast
  then show "keepalive_ok (neg_catch c e s)"
    unfolding neg_catch_eq by (rule keepalive_ok_stop)
qed

lemma keepalive_ok_then_gathered: "keepalive_ok s \<Longrightarrow> keepalive_ok (then_gathered c s)"
proof -
  assume a: "keepalive_ok s"
  let ?s1 = "log ''ICE gathering complete, sending Offer to server'' s"
  have v: "chan_view ?s1 = chan_view s" by (simp add: chan_view_def log_def)
  then have k: "keepalive_ok ?s1" using a keepalive_ok_view by blast
  show ?thesis
  proof (cases "pc s")
    case None
    then show ?thesis using k keepalive_ok_neg_catch by (simp add: then_gathered_cases)
  next
    case (Some p)
    show ?thesis
    proof (cases "localDescription (pcs s p)")
      case None
      with Some show ?thesis using k keepalive_ok_neg_catch by (simp add: then_gathered_cases)
    next
      case (Some offer)
      with \<open>pc s = Some p\<close> have "chan_view (then_gathered c s) = chan_view s"
        by (simp add: then_gathered_cases chan_view_def)
      then show ?thesis using a keepalive_ok_view by blast
    qed
  qed
qed

lemma keepalive_ok_resolve_wait: "keepalive_ok s \<Longrightarrow> keepalive_ok (resolve_wait c p s)"
proof -
  assume a: "keepalive_ok s"
  have "chan_view (called (GatheringCompleteSeen c p) s) = chan_view s"
    by (simp add: chan_view_def called_def)
  then have "keepalive_ok (called (GatheringCompleteSeen c p) s)"
    using a keepalive_ok_view by blast
  then show ?thesis unfolding resolve_wait_def by (rule keepalive_ok_then_gathered)
qed

lemma keepalive_ok_callbacks:
  assumes "keepalive_ok s"
  shows "keepalive_ok (then_offer c offer s)" "keepalive_ok (then_local c s)"
    "keepalive_ok (then_response c r s)" "keepalive_ok (then_answer c answer s)"
    "keepalive_ok (then_remote c s)"
proof -
  have l: "keepalive_ok (log m s)" for m
    using assms keepalive_ok_view [of "log m s" s] by (simp add: chan_view_def log_def)
  show "keepalive_ok (then_offer c offer s)"
  proof (cases "pc s")
    case None
    then show ?thesis using l keepalive_ok_neg_catch by (simp add: then_offer_def log_def Let_def)
  next
    case (Some p)
    then have "chan_view (then_offer c offer s) = chan_view s"
      by (simp add: then_offer_def chan_view_def log_def called_def Let_def)
    then show ?thesis using assms keepalive_ok_view by blast
  qed
  show "keepalive_ok (then_local c s)"
  proof (cases "pc s")
    case None
    then show ?thesis using l keepalive_ok_neg_catch by (simp add: then_local_def log_def Let_def)
  next
    case (Some p)
    show ?thesis
    proof (cases "iceGatheringState (pcs s p) = GatherComplete")
      case True
      with Some show ?thesis
        using l keepalive_ok_resolve_wait by (simp add: then_local_def log_def Let_def)
    next
      case False
      with Some have "chan_view (then_local c s) = chan_view s"
        by (simp add: then_local_def chan_view_def log_def addEventListener_def update_pc_def Let_def)
      then show ?thesis using assms keepalive_ok_view by blast
    qed
  qed
  have "chan_view (then_response c r s) = chan_view s"
    by (simp add: then_response_def chan_view_def log_def called_def Let_def)
  then show "keepalive_ok (then_response c r s)" using assms keepalive_ok_view by blast
  show "keepalive_ok (then_answer c answer s)"
  proof (cases "pc s")
    case None
    then show ?thesis using l keepalive_ok_neg_catch by (simp add: then_answer_def log_def Let_def)
  next
    case (Some p)
    then have "chan_view (then_answer c answer s) = chan_view s"
      by (simp add: then_answer_def chan_view_def log_def called_def Let_def)
    then show ?thesis using assms keepalive_ok_view by blast
  qed
  have "chan_view (then_remote c s) = chan_view s"
    by (simp add: then_remote_def chan_view_def log_def called_def Let_def)
  then show "keepalive_ok (then_remote c s)" using assms keepalive_ok_view by blast
qed

lemma keepalive_ok_update_pc: "keepalive_ok (update_pc p f s) = keepalive_ok s"
  by (rule keepalive_ok_view) (simp add: chan_view_def update_pc_def)

lemma keepalive_ok_settled:
  assumes "keepalive_ok s"
  shows "keepalive_ok (offer_settled c r1 s)" "keepalive_ok (local_settled c r2 s)"
    "keepalive_ok (fetch_settled c r3 s)" "keepalive_ok (json_settled c s)"
    "keepalive_ok (remote_settled c r2 s)"
  using assms
  by (auto simp: offer_settled_def local_settled_def fetch_settled_def json_settled_def
        remote_settled_def keepalive_ok_callbacks keepalive_ok_neg_catch keepalive_ok_update_pc
        split: neg_stage.splits sum.splits option.splits json_body.splits)

lemma keepalive_ok_run_listener: "keepalive_ok s \<Longrightarrow> keepalive_ok (run_listener l ev s)"
proof -
  assume a: "keepalive_ok s"
  have t: "keepalive_ok (throw e s)" for e
    using a keepalive_ok_view [of "throw e s" s] by (simp add: chan_view_def throw_def)
  have c: "keepalive_ok (checkState c s)" for c
  proof (cases "pc s")
    case None
    then show ?thesis using t by (simp add: checkState_def)
  next
    case (Some p)
    let ?s1 = "removeEventListener p IceGatheringStateChange (CheckState c) s"
    have "keepalive_ok ?s1"
      using a by (simp add: removeEventListener_def keepalive_ok_update_pc)
    then show ?thesis
      using a Some keepalive_ok_resolve_wait by (simp add: checkState_def Let_def)
  qed
  have n: "keepalive_ok (conn_listener s)"
  proof (cases "pc s")
    case None
    then show ?thesis using t by (simp add: conn_listener_def)
  next
    case (Some p)
    let ?st = "connectionState (pcs s p)"
    let ?s1 = "log (''Connection state changed: '' @ conn_state_name ?st) s"
    have 1: "keepalive_ok ?s1"
      by (rule keepalive_ok_frame [OF a]) (simp_all add: log_def)
    have 2: "keepalive_ok ((log ''Connection successful!'' ?s1)\<lparr>requestFrameButton_disabled := False\<rparr>)"
      by (rule keepalive_ok_frame [OF a]) (simp_all add: log_def)
    have 3: "keepalive_ok (stop (log ''Connection has been disconnected.'' ?s1))"
      by (rule keepalive_ok_stop, rule keepalive_ok_frame [OF a]) (simp_all add: log_def)
    have "conn_listener s =
        (if ?st = Connected then
           (log ''Connection successful!'' ?s1)\<lparr>requestFrameButton_disabled := False\<rparr>
         else if ?st = ConnFailed \<or> ?st = ConnClosed \<or> ?st = Disconnected then
           stop (log ''Connection has been disconnected.'' ?s1)
         else ?s1)"
      using Some by (simp add: conn_listener_def Let_def)
    then show ?thesis using 1 2 3 by presburger
  qed
  have k: "keepalive_ok (track_listener kind streams s)" for kind streams
    using a keepalive_ok_view [of "track_listener kind streams s" s]
    by (simp add: chan_view_def track_listener_def log_def throw_def Let_def split: list.splits)
  show ?thesis
    using a c n k by (simp add: run_listener_def split: listener.splits dom_event.splits)
qed

lemma keepalive_ok_dispatch: "keepalive_ok s \<Longrightarrow> keepalive_ok (dispatch p ev s)"
  unfolding dispatch_def
  by (rule fold_listeners_keeps [where P = keepalive_ok]) (simp_all add: keepalive_ok_run_listener)

lemma keepalive_ok_start: "keepalive_ok s \<Longrightarrow> \<not> startButton_disabled s \<Longrightarrow> keepalive_ok (start s)"
  by (auto simp: keepalive_defs start_fields)

lemma keepalive_ok_requestFrame: "keepalive_ok s \<Longrightarrow> keepalive_ok (requestFrame a s)"
proof -
  assume a: "keepalive_ok s"
  have "chan_view (requestFrame a s) = chan_view s"
    by (simp add: chan_view_def requestFrame_def frame_request_refused_def dc_send_def log_def
          alert_def called_def throw_def Let_def split: option.splits)
  then show ?thesis using a keepalive_ok_view by blast
qed

lemma keepalive_ok_channel_events:
  assumes "keepalive_ok s"
  shows "readyState (dcs s d) = ChConnecting \<Longrightarrow>
           keepalive_ok (dc_onopen (update_dc d (\<lambda>ch. ch\<lparr>readyState := ChOpen\<rparr>) s))"
    and "readyState (dcs s d) = ChOpen \<Longrightarrow>
           keepalive_ok (update_dc d (\<lambda>ch. ch\<lparr>readyState := ChClosing\<rparr>) s)"
    and "keepalive_ok (dc_onclose (update_dc d (\<lambda>ch. ch\<lparr>readyState := ChClosed\<rparr>) s))"
    and "keepalive_ok (dc_onerror err s)"
    and "keepalive_ok (dc_onmessage message now s)"
    and "keepalive_ok (ping_tick now accepted s)"
    and "keepalive_ok (deferred_close s)"
proof -
  show "keepalive_ok (dc_onopen (update_dc d (\<lambda>ch. ch\<lparr>readyState := ChOpen\<rparr>) s))"
    if "readyState (dcs s d) = ChConnecting"
  proof -
    from that assms have "dc s = Some d" by (auto simp: keepalive_defs)
    then show ?thesis
      using assms
      by (auto simp: keepalive_defs dc_onopen_def update_dc_def setInterval_def
            log_def called_def Let_def)
  qed
  show "keepalive_ok (update_dc d (\<lambda>ch. ch\<lparr>readyState := ChClosing\<rparr>) s)"
    if "readyState (dcs s d) = ChOpen"
    using assms that by (auto simp: keepalive_defs update_dc_def split: option.splits)
  show "keepalive_ok (dc_onclose (update_dc d (\<lambda>ch. ch\<lparr>readyState := ChClosed\<rparr>) s))"
    using assms
    by (auto simp: keepalive_defs dc_onclose_def update_dc_def clearInterval_def
          log_def called_def throw_def Let_def split: option.splits)
  have "chan_view (dc_onerror err s) = chan_view s"
    by (simp add: chan_view_def dc_onerror_def log_def throw_def split: option.splits)
  then show "keepalive_ok (dc_onerror err s)" using assms keepalive_ok_view by blast
  have "chan_view (dc_onmessage message now s) = chan_view s"
    by (simp add: chan_view_def dc_onmessage_def log_def throw_def
          split: option.splits payload.splits)
  then show "keepalive_ok (dc_onmessage message now s)" using assms keepalive_ok_view by blast
  show "keepalive_ok (ping_tick now accepted s)"
    using assms
    by (auto simp: keepalive_defs ping_tick_def dc_send_def clearInterval_def
          log_def called_def Let_def split: option.splits)
  show "keepalive_ok (deferred_close s)"
    using assms
    by (auto simp: keepalive_defs deferred_close_def pc_close_def close_channels_of_def
          update_pc_def log_def called_def split: option.splits)
qed

lemma keepalive_ok_step: "keepalive_ok s \<Longrightarrow> keepalive_ok (step e s)"
proof (cases e)
  case (TimeoutFired)
  assume a: "keepalive_ok s"
  have "keepalive_ok (s\<lparr>pending_closes := pending_closes s - 1\<rparr>)"
    using a keepalive_ok_view [of "s\<lparr>pending_closes := pending_closes s - 1\<rparr>" s]
    by (simp add: chan_view_def)
  then show ?thesis using a TimeoutFired keepalive_ok_channel_events(7) by simp
qed (simp_all add: keepalive_ok_start keepalive_ok_requestFrame keepalive_ok_stop
       keepalive_ok_settled keepalive_ok_dispatch keepalive_ok_update_pc
       keepalive_ok_channel_events)

lemma keepalive_ok_run: "keepalive_ok s \<Longrightarrow> keepalive_ok (run es s)"
  by (induction es arbitrary: s) (simp_all add: keepalive_ok_step)

lemma keepalive_ok_init: "keepalive_ok init"
  by (simp add: keepalive_defs init_def no_channel_def)

text \<open>
  C5 as stated does not hold, in neither direction. After a tick whose send fails
  while the channel is open, the handle has been cancelled and the channel is still
  open. When the peer closes the channel, the channel leaves the open state with the
  handle still in place: the script has no handler for the closing state, and the
  handle is cancelled only when the close notification arrives. And when a deferred
  close of an earlier teardown closes the connection of the current session, its
  channel is closed by the browser while the handle stays.
\<close>

theorem keepalive_handle_differs_from_open:
  "dcInterval (run [ClickStart, ChannelOpened 0] init) = Some 1
   \<and> dc (run [ClickStart, ChannelOpened 0, IntervalTick 1 1700000000000 False] init) = Some 0
   \<and> readyState (dcs (run [ClickStart, ChannelOpened 0,
                             IntervalTick 1 1700000000000 False] init) 0) = ChOpen
   \<and> dcInterval (run [ClickStart, ChannelOpened 0, IntervalTick 1 1700000000000 False] init) = None
   \<and> intervals (run [ClickStart, ChannelOpened 0, IntervalTick 1 1700000000000 False] init) = {}
   \<and> dc (run [ClickStart, ChannelOpened 0, ChannelClosing 0] init) = Some 0
   \<and> readyState (dcs (run [ClickStart, ChannelOpened 0, ChannelClosing 0] init) 0) = ChClosing
   \<and> dcInterval (run [ClickStart, ChannelOpened 0, ChannelClosing 0] init) = Some 1
   \<and> 1 \<in> intervals (run [ClickStart, ChannelOpened 0, ChannelClosing 0] init)
   \<and> dc (run [ClickStart, ChannelOpened 0, ClickStop, ClickStart, ChannelOpened 1,
               TimeoutFired] init) = Some 1
   \<and> readyState (dcs (run [ClickStart, ChannelOpened 0, ClickStop, ClickStart, ChannelOpened 1,
                             TimeoutFired] init) 1) = ChClosed
   \<and> dcInterval (run [ClickStart, ChannelOpened 0, ClickStop, ClickStart, ChannelOpened 1,
                       TimeoutFired] init) = Some 2
   \<and> 2 \<in> intervals (run [ClickStart, ChannelOpened 0, ClickStop, ClickStart, ChannelOpened 1,
                           TimeoutFired] init)"
  by (simp add: eval_simps)

text \<open>
  C5, amended. In every state the script can reach, the keepalive handle exists only
  if the session has a channel that has been opened, and the handle names a running
  interval. The handle is created when the open notification is handled. It is
  cancelled by the close handler (which the browser runs once the channel has
  closed), by teardown before it calls \<open>close\<close> on the channel, and by a tick whose
  send fails; the failed tick leaves the channel as it was. So an open channel can
  be without a handle, and a channel that is closing or closed can still have one.
\<close>

theorem keepalive_handle_lifecycle:
  "(dcInterval (run es init) \<noteq> None \<longrightarrow> channel_was_opened (run es init))
   \<and> (dcInterval (run es init) = Some t \<longrightarrow> t \<in> intervals (run es init))
   \<and> (dc s = Some d \<longrightarrow>
        dcInterval (dc_onopen s) = Some (next_timer s) \<and> next_timer s \<in> intervals (dc_onopen s))
   \<and> (dc s = Some d \<longrightarrow>
        dcInterval (dc_onclose s) = None
        \<and> (dcInterval s = Some t \<longrightarrow> t \<notin> intervals (dc_onclose s)))
   \<and> (dcInterval s = Some t \<and> dc s = Some d \<longrightarrow>
        trace (stop s) = trace s @ [ClearIntervalCall t, DcCloseCall d]
                           @ (case pc s of None \<Rightarrow> [] | Some p \<Rightarrow> [SetTimeoutCall])
        \<and> t \<notin> intervals (stop s))
   \<and> dcInterval (stop s) = None
   \<and> dcInterval (ping_tick now False s) = None
   \<and> (dcInterval s = Some t \<longrightarrow> t \<notin> intervals (ping_tick now False s))
   \<and> dcs (ping_tick now False s) = dcs s
   \<and> dc (ping_tick now False s) = dc s"
proof -
  have inv: "keepalive_ok (run es init)"
    using keepalive_ok_run [OF keepalive_ok_init, of es] .
  have reach: "dcInterval (run es init) \<noteq> None \<longrightarrow> channel_was_opened (run es init)"
    "dcInterval (run es init) = Some t \<longrightarrow> t \<in> intervals (run es init)"
    using inv by (simp_all add: keepalive_ok_def handle_ok_def)
  have opened: "dc s = Some d \<longrightarrow>
        dcInterval (dc_onopen s) = Some (next_timer s) \<and> next_timer s \<in> intervals (dc_onopen s)"
    by (simp add: dc_onopen_def setInterval_def log_def called_def Let_def)
  have closed: "dc s = Some d \<longrightarrow>
        dcInterval (dc_onclose s) = None
        \<and> (dcInterval s = Some t \<longrightarrow> t \<notin> intervals (dc_onclose s))"
    by (simp add: dc_onclose_def clearInterval_def log_def called_def Let_def split: option.splits)
  have torn: "dcInterval s = Some t \<and> dc s = Some d \<longrightarrow>
        trace (stop s) = trace s @ [ClearIntervalCall t, DcCloseCall d]
                           @ (case pc s of None \<Rightarrow> [] | Some p \<Rightarrow> [SetTimeoutCall])
        \<and> t \<notin> intervals (stop s)"
    by (simp add: stop_trace stop_intervals)
  have tick: "dcInterval (ping_tick now False s) = None"
    "dcInterval s = Some t \<longrightarrow> t \<notin> intervals (ping_tick now False s)"
    "dcs (ping_tick now False s) = dcs s" "dc (ping_tick now False s) = dc s"
    by (simp_all add: ping_tick_def dc_send_def clearInterval_def log_def called_def Let_def
          split: option.splits)
  show ?thesis
    using reach opened closed torn tick stop_fields(2) [of s] by blast
qed

theorem keepalive_handle_lifecycle_witness:
  "dcInterval (run [ClickStart, ChannelOpened 0] init) \<noteq> None
   \<and> channel_was_opened (run [ClickStart, ChannelOpened 0] init)
   \<and> 1 \<in> intervals (run [ClickStart, ChannelOpened 0] init)
   \<and> dc (run [ClickStart] init) = Some 0
   \<and> dcInterval (dc_onopen (run [ClickStart] init)) = Some (next_timer (run [ClickStart] init))
   \<and> dc (run [ClickStart, ChannelOpened 0] init) = Some 0
   \<and> dcInterval (run [ClickStart, ChannelOpened 0] init) = Some 1
   \<and> dcInterval (dc_onclose (run [ClickStart, ChannelOpened 0] init)) = None
   \<and> 1 \<notin> intervals (dc_onclose (run [ClickStart, ChannelOpened 0] init))
   \<and> 1 \<notin> intervals (stop (run [ClickStart, ChannelOpened 0] init))
   \<and> 1 \<notin> intervals (ping_tick 1700000000000 False (run [ClickStart, ChannelOpened 0] init))"
proof -
  let ?s1 = "run [ClickStart] init"
  let ?s2 = "run [ClickStart, ChannelOpened 0] init"
  have h: "dc ?s1 = Some 0" "dc ?s2 = Some 0" "dcInterval ?s2 = Some 1" "dcInterval ?s2 \<noteq> None"
    by (simp_all add: eval_simps)
  note T1 = keepalive_handle_lifecycle [of "[ClickStart, ChannelOpened 0]" 1 ?s1 0 1700000000000]
  note T2 = keepalive_handle_lifecycle [of "[ClickStart, ChannelOpened 0]" 1 ?s2 0 1700000000000]
  have 1: "channel_was_opened ?s2" "1 \<in> intervals ?s2" using h(3,4) T1 by blast+
  have 2: "dcInterval (dc_onopen ?s1) = Some (next_timer ?s1)" using h(1) T1 by blast
  have 3: "dcInterval (dc_onclose ?s2) = None" "1 \<notin> intervals (dc_onclose ?s2)"
    using h(2,3) T2 by blast+
  have 4: "1 \<notin> intervals (stop ?s2)" using h(2,3) T2 by blast
  have 5: "1 \<notin> intervals (ping_tick 1700000000000 False ?s2)" using h(3) T2 by blast
  show ?thesis using h 1 2 3 4 5 by blast
qed

section \<open>The order of the negotiation steps\<close>

subsection \<open>What each callback adds to the trace of the negotiation\<close>

lemma steps_in_append: "steps_in c (xs @ ys) = steps_in c xs @ steps_in c ys"
  by (simp add: steps_in_def List.map_filter_def)

lemma steps_in_simps:
  "steps_in c [] = []"
  "steps_in c (a # xs) = (case chain_step c a of None \<Rightarrow> steps_in c xs | Some x \<Rightarrow> x # steps_in c xs)"
  by (simp_all add: steps_in_def List.map_filter_def split: option.splits)







lemma nv_neg_catch:
  "neg_trace (neg_catch c e s) = neg_trace s @ [NegotiationFailed c]"
  by (simp add: neg_trace_def neg_catch_fields split: option.splits)


lemma nv_then_gathered:
  "next_pc (then_gathered c s) = next_pc s"
  "chains (then_gathered c s) =
     (chains s)(c := case offer_at s of None \<Rightarrow> NegFailed | Some offer \<Rightarrow> AwaitFetch offer)"
  "neg_trace (then_gathered c s) =
     neg_trace s @ [case offer_at s of None \<Rightarrow> NegotiationFailed c
                    | Some offer \<Rightarrow> FetchCall c \<lparr>sdp_kind = sdp_kind offer, sdp = sdp offer\<rparr>]"
  by (simp_all add: then_gathered_def offer_at_def neg_catch_fields nv_neg_catch
        log_def called_def neg_trace_def Let_def split: option.splits)

lemma nv_resolve_wait:
  "next_pc (resolve_wait c p s) = next_pc s"
  "chains (resolve_wait c p s) =
     (chains s)(c := case offer_at s of None \<Rightarrow> NegFailed | Some offer \<Rightarrow> AwaitFetch offer)"
  "neg_trace (resolve_wait c p s) =
     neg_trace s @ [GatheringCompleteSeen c p,
                    case offer_at s of None \<Rightarrow> NegotiationFailed c
                    | Some offer \<Rightarrow> FetchCall c \<lparr>sdp_kind = sdp_kind offer, sdp = sdp offer\<rparr>]"
  by (simp_all add: resolve_wait_def then_gathered_def offer_at_def neg_catch_fields
        log_def called_def neg_trace_def Let_def split: option.splits)









subsection \<open>Each run makes its steps in order\<close>



lemma chain_steps_neg_catch:
  "chain_steps c' (neg_catch c e s) = chain_steps c' s @ (if c' = c then [Failed] else [])"
  by (simp add: chain_steps_def neg_catch_fields steps_in_append steps_in_simps
        split: option.splits)

text \<open>One chain moves on; the others, and the supply of fresh chains, stay.\<close>

lemma chains_ok_move:
  assumes "chains_ok s" and "chains s c \<noteq> NotStarted"
    and "next_chain s' = next_chain s"
    and "\<And>c'. c' \<noteq> c \<Longrightarrow> chains s' c' = chains s c'"
    and "\<And>c'. c' \<noteq> c \<Longrightarrow> chain_steps c' s' = chain_steps c' s"
    and "stage_steps (chains s' c) (chain_steps c s')"
  shows "chains_ok s'"
proof -
  have lt: "c < next_chain s"
    using assms(1,2) by (auto simp: chains_ok_def not_le [symmetric])
  show ?thesis
    unfolding chains_ok_def
  proof (intro conjI allI impI)
    fix c'
    show "stage_steps (chains s' c') (chain_steps c' s')"
      using assms(1,4,5,6) by (cases "c' = c") (simp_all add: chains_ok_def)
  next
    fix c'
    assume "next_chain s' \<le> c'"
    then have "c' \<noteq> c" "next_chain s \<le> c'" using lt assms(3) by simp_all
    then show "chains s' c' = NotStarted"
      using assms(1,4) by (simp add: chains_ok_def)
  qed
qed



text \<open>The catch handler, entered from a chain that has made \<open>k\<close> of its calls.\<close>

lemma chains_ok_neg_catch:
  assumes "chains_ok s" and "chains s c \<noteq> NotStarted"
    and "chain_steps c s = take k negotiation_order" and "1 \<le> k" and "k \<le> 6"
  shows "chains_ok (neg_catch c e s)"
proof (rule chains_ok_move [OF assms(1,2)])
  show "next_chain (neg_catch c e s) = next_chain s" by (simp add: neg_catch_fields)
  show "\<And>c'. c' \<noteq> c \<Longrightarrow> chains (neg_catch c e s) c' = chains s c'"
    by (simp add: neg_catch_fields)
  show "\<And>c'. c' \<noteq> c \<Longrightarrow> chain_steps c' (neg_catch c e s) = chain_steps c' s"
    by (simp add: chain_steps_neg_catch)
  have "k \<in> {1, 2, 3, 4, 5, 6}" using assms(4,5) by auto
  then show "stage_steps (chains (neg_catch c e s) c) (chain_steps c (neg_catch c e s))"
    by (auto simp: neg_catch_fields chain_steps_neg_catch assms(3))
qed





















subsection \<open>Descriptions are applied where they were submitted\<close>

lemmas applied_defs = applied_ok_def ids_ok_def local_ok_def remote_ok_def



text \<open>One run moves to stage \<open>st\<close> and makes the calls \<open>xs\<close>.\<close>

lemma applied_ok_move:
  assumes "applied_ok s" and "pc s' = pc s" and "next_pc s' = next_pc s"
    and "\<And>q. localDescription (pcs s' q) = localDescription (pcs s q)"
    and "\<And>q. remoteDescription (pcs s' q) = remoteDescription (pcs s q)"
    and "chains s' = (chains s)(c := st)" and "neg_trace s' = neg_trace s @ xs"
    and "\<And>c' p. SetLocalCall c' p \<in> set xs \<or> GatheringCompleteSeen c' p \<in> set xs
           \<or> SetRemoteCall c' p \<in> set xs \<Longrightarrow> pc s = Some p"
    and "\<And>c'. c' \<noteq> c \<Longrightarrow> steps_in c' xs = []"
    and "\<And>p offer. st = AwaitSetLocal p offer \<Longrightarrow> SetLocalCall c p \<in> set (neg_trace s @ xs)"
    and "st = AwaitGathering \<or> GatheringDone \<in> set (steps_in c xs) \<Longrightarrow>
           \<exists>p. SetLocalCall c p \<in> set (neg_trace s) \<and> localDescription (pcs s p) \<noteq> None"
    and "\<And>p answer. st = AwaitSetRemote p answer \<Longrightarrow> SetRemoteCall c p \<in> set (neg_trace s @ xs)"
  shows "applied_ok s'"
proof -
  have ids: "ids_ok s'"
    using assms(1,2,3,7,8) by (auto simp: applied_defs)
  have loc: "local_ok s'"
    unfolding local_ok_def
  proof (intro conjI allI impI)
    fix c' p offer
    assume "chains s' c' = AwaitSetLocal p offer"
    then show "SetLocalCall c' p \<in> set (neg_trace s')"
      using assms(1,6,7,10) by (cases "c' = c") (auto simp: applied_defs)
  next
    fix c'
    assume a: "chains s' c' = AwaitGathering \<or> GatheringDone \<in> set (steps_in c' (neg_trace s'))"
    show "\<exists>p. SetLocalCall c' p \<in> set (neg_trace s') \<and> localDescription (pcs s' p) \<noteq> None"
    proof (cases "c' = c")
      case True
      have "\<exists>p. SetLocalCall c p \<in> set (neg_trace s) \<and> localDescription (pcs s p) \<noteq> None"
      proof (cases "st = AwaitGathering \<or> GatheringDone \<in> set (steps_in c xs)")
        case True
        then show ?thesis by (rule assms(11))
      next
        case False
        with a \<open>c' = c\<close> have "GatheringDone \<in> set (steps_in c (neg_trace s))"
          by (simp add: assms(6,7) steps_in_append)
        then show ?thesis using assms(1) unfolding applied_ok_def local_ok_def by blast
      qed
      then show ?thesis using True by (auto simp: assms(4,7))
    next
      case False
      with a have "chains s c' = AwaitGathering \<or> GatheringDone \<in> set (steps_in c' (neg_trace s))"
        by (simp add: assms(6,7,9) steps_in_append)
      then have "\<exists>p. SetLocalCall c' p \<in> set (neg_trace s) \<and> localDescription (pcs s p) \<noteq> None"
        using assms(1) unfolding applied_ok_def local_ok_def by blast
      then show ?thesis by (auto simp: assms(4,7))
    qed
  qed
  have rem: "remote_ok s'"
    unfolding remote_ok_def
  proof (intro conjI allI impI)
    fix c' p answer
    assume "chains s' c' = AwaitSetRemote p answer"
    then show "SetRemoteCall c' p \<in> set (neg_trace s')"
      using assms(1,6,7,12) by (cases "c' = c") (auto simp: applied_defs)
  next
    fix p
    assume "remoteDescription (pcs s' p) \<noteq> None"
    then show "\<exists>c. SetRemoteCall c p \<in> set (neg_trace s')"
      using assms(1) by (auto simp: applied_defs assms(5,7))
  qed
  show ?thesis using ids loc rem by (simp add: applied_ok_def)
qed




lemma applied_ok_then_gathered: "applied_ok s \<Longrightarrow> applied_ok (then_gathered c s)"
  by (rule applied_ok_move [where c = c
        and st = "case offer_at s of None \<Rightarrow> NegFailed | Some offer \<Rightarrow> AwaitFetch offer"
        and xs = "[case offer_at s of None \<Rightarrow> NegotiationFailed c
                   | Some offer \<Rightarrow> FetchCall c \<lparr>sdp_kind = sdp_kind offer, sdp = sdp offer\<rparr>]"])
     (auto simp: nv_then_gathered then_gathered_frame steps_in_simps split: option.splits)

lemma applied_ok_resolve_wait:
  assumes "applied_ok s" and "pc s = Some p"
    and "\<exists>p1. SetLocalCall c p1 \<in> set (neg_trace s) \<and> localDescription (pcs s p1) \<noteq> None"
  shows "applied_ok (resolve_wait c p s)"
  by (rule applied_ok_move [OF assms(1), where c = c
        and st = "case offer_at s of None \<Rightarrow> NegFailed | Some offer \<Rightarrow> AwaitFetch offer"
        and xs = "[GatheringCompleteSeen c p,
                   case offer_at s of None \<Rightarrow> NegotiationFailed c
                   | Some offer \<Rightarrow> FetchCall c \<lparr>sdp_kind = sdp_kind offer, sdp = sdp offer\<rparr>]"])
     (use assms(2,3) in \<open>auto simp: nv_resolve_wait resolve_wait_frame steps_in_simps
        split: option.splits\<close>)

















subsection \<open>A run resolves its wait only on reading \<open>complete\<close>\<close>















subsection \<open>The claim\<close>





section \<open>Inbound messages on the control channel\<close>

lemma open_channel_is_current:
  assumes "keepalive_ok s" and "readyState (dcs s d) = ChOpen"
  shows "dc s = Some d"
  using assms by (auto simp: keepalive_ok_def channels_ok_def)

text \<open>
  C8 as stated does not hold for every inbound message. \<open>dc.onmessage\<close> calls
  \<open>evt.data.substring\<close>, which only a string has: a binary message on the open
  channel is neither consumed nor forwarded, the handler throws and the exception is
  uncaught.
\<close>

theorem binary_message_throws:
  "readyState (dcs (run [ClickStart, ChannelOpened 0] init) 0) = ChOpen
   \<and> step (ChannelMessage 0 Binary 9) (run [ClickStart, ChannelOpened 0] init)
       = throw not_a_function (run [ClickStart, ChannelOpened 0] init)
   \<and> uncaught (run [ClickStart, ChannelOpened 0, ChannelMessage 0 Binary 9] init)
       = [not_a_function]
   \<and> logs (run [ClickStart, ChannelOpened 0, ChannelMessage 0 Binary 9] init)
       = logs (run [ClickStart, ChannelOpened 0] init)"
proof -
  let ?s = "run [ClickStart, ChannelOpened 0] init"
  have 1: "0 < next_dc ?s" "readyState (dcs ?s 0) = ChOpen" "uncaught ?s = []"
    by (simp_all add: eval_simps)
  have 2: "step (ChannelMessage 0 Binary 9) ?s = throw not_a_function ?s"
    using 1 by (simp add: dc_onmessage_def del: run.simps)
  have 3: "run [ClickStart, ChannelOpened 0, ChannelMessage 0 Binary 9] init
            = step (ChannelMessage 0 Binary 9) ?s"
    by simp
  have 4: "uncaught (step (ChannelMessage 0 Binary 9) ?s) = [not_a_function]"
    "logs (step (ChannelMessage 0 Binary 9) ?s) = logs ?s"
    unfolding 2 using 1(3) by (simp_all add: throw_def del: run.simps)
  show ?thesis
    unfolding 3 using 1(2) 2 4 by blast
qed

text \<open>
  C8, amended. \<open>dc.onmessage\<close> classifies a text message by its first four characters.
  A message that starts with \<open>pong\<close> leaves the whole state as it is (nothing is
  logged, nothing is thrown, no connection state changes); the round-trip time it
  computes for the reply \<open>pong t\<close> is \<open>now - t\<close> when the clock and the timestamp are at
  most \<open>2^53\<close>, and the reply is taken whether or not a ping with that timestamp was
  ever sent. Any other text message arriving on the session's channel is forwarded:
  it is appended to the log, and nothing else changes. In every state the script can
  reach, a text message delivered on an open channel is handled in one of these two
  ways. A binary message makes the handler throw.
\<close>

theorem onmessage_pong_or_forward:
  "(take 4 data = ''pong'' \<longrightarrow> dc_onmessage (Text data) now s = s)
   \<and> (take 4 data \<noteq> ''pong'' \<longrightarrow> dc s = Some d \<longrightarrow>
        dc_onmessage (Text data) now s =
          log (''Message from DataChannel '' @ quote @ label (dcs s d) @ quote @ '': '' @ data) s)
   \<and> (now \<le> 2 ^ 53 \<and> t \<le> 2 ^ 53 \<longrightarrow>
        roundtrip now (''pong '' @ decimal t) = Num (int now - int t))
   \<and> ((d, ''ping '' @ decimal t) \<notin> set (sent s) \<longrightarrow>
        dc_onmessage (Text (''pong '' @ decimal t)) now s = s)
   \<and> (d < next_dc (run es init) \<and> readyState (dcs (run es init) d) = ChOpen \<longrightarrow>
        step (ChannelMessage d (Text data) now) (run es init) =
          (if take 4 data = ''pong'' then run es init
           else log (''Message from DataChannel '' @ quote @ label (dcs (run es init) d) @ quote
                       @ '': '' @ data) (run es init)))
   \<and> dc_onmessage Binary now s = throw not_a_function s"
proof -
  have "now \<le> 2 ^ 53 \<and> t \<le> 2 ^ 53 \<longrightarrow>
        roundtrip now (''pong '' @ decimal t) = Num (int now - int t)"
    using roundtrip_exact by blast
  moreover have "take 4 data = ''pong'' \<longrightarrow> dc_onmessage (Text data) now s = s"
    by (simp add: dc_onmessage_def)
  moreover have "take 4 data \<noteq> ''pong'' \<longrightarrow> dc s = Some d \<longrightarrow>
        dc_onmessage (Text data) now s =
          log (''Message from DataChannel '' @ quote @ label (dcs s d) @ quote @ '': '' @ data) s"
    by (simp add: dc_onmessage_def)
  moreover have "dc_onmessage (Text (''pong '' @ decimal t)) now s = s"
    by (simp add: dc_onmessage_def)
  moreover have "dc_onmessage Binary now s = throw not_a_function s"
    by (simp add: dc_onmessage_def)
  moreover have "d < next_dc (run es init) \<and> readyState (dcs (run es init) d) = ChOpen \<longrightarrow>
        step (ChannelMessage d (Text data) now) (run es init) =
          (if take 4 data = ''pong'' then run es init
           else log (''Message from DataChannel '' @ quote @ label (dcs (run es init) d) @ quote
                       @ '': '' @ data) (run es init))"
  proof
    assume a: "d < next_dc (run es init) \<and> readyState (dcs (run es init) d) = ChOpen"
    have "keepalive_ok (run es init)" by (rule keepalive_ok_run [OF keepalive_ok_init])
    then have "dc (run es init) = Some d" using a open_channel_is_current by blast
    then show "step (ChannelMessage d (Text data) now) (run es init) =
          (if take 4 data = ''pong'' then run es init
           else log (''Message from DataChannel '' @ quote @ label (dcs (run es init) d) @ quote
                       @ '': '' @ data) (run es init))"
      using a by (simp add: dc_onmessage_def)
  qed
  ultimately show ?thesis by blast
qed

theorem onmessage_pong_or_forward_witness:
  "take 4 ''pong 5'' = ''pong'' \<and> dc_onmessage (Text ''pong 5'') 9 init = init
   \<and> take 4 ''hello'' \<noteq> ''pong'' \<and> dc (run [ClickStart] init) = Some 0
   \<and> logs (dc_onmessage (Text ''hello'') 9 (run [ClickStart] init))
       = logs (run [ClickStart] init) @ [''Message from DataChannel '' @ quote @ ''chat'' @ quote @ '': hello'']
   \<and> (9::nat) \<le> 2 ^ 53 \<and> (5::nat) \<le> 2 ^ 53
   \<and> roundtrip 9 (''pong '' @ decimal 5) = Num 4
   \<and> (0, ''ping '' @ decimal 5) \<notin> set (sent init)
   \<and> dc_onmessage (Text (''pong '' @ decimal 5)) 9 init = init
   \<and> 0 < next_dc (run [ClickStart, ChannelOpened 0] init)
   \<and> readyState (dcs (run [ClickStart, ChannelOpened 0] init) 0) = ChOpen
   \<and> logs (step (ChannelMessage 0 (Text ''hello'') 9) (run [ClickStart, ChannelOpened 0] init))
       = logs (run [ClickStart, ChannelOpened 0] init)
           @ [''Message from DataChannel '' @ quote @ ''chat'' @ quote @ '': hello'']"
proof -
  let ?s2 = "run [ClickStart, ChannelOpened 0] init"
  have a: "take 4 ''pong 5'' = ''pong''" "take 4 ''hello'' \<noteq> ''pong''" by simp_all
  have b: "dc (run [ClickStart] init) = Some 0" "label (dcs (run [ClickStart] init) 0) = ''chat''"
    by (simp_all add: start_fields init_def)
  have c: "(0, ''ping '' @ decimal 5) \<notin> set (sent init)" by (simp add: init_def)
  have n: "(9::nat) \<le> 2 ^ 53" "(5::nat) \<le> 2 ^ 53" by simp_all
  have o: "0 < next_dc ?s2" "readyState (dcs ?s2 0) = ChOpen" "label (dcs ?s2 0) = ''chat''"
    by (simp_all add: eval_simps)
  have 1: "dc_onmessage (Text ''pong 5'') 9 init = init"
    using a(1) onmessage_pong_or_forward [of "''pong 5''" 9 init 0 5 "[]"] by blast
  have 2: "dc_onmessage (Text ''hello'') 9 (run [ClickStart] init) =
      log (''Message from DataChannel '' @ quote @ label (dcs (run [ClickStart] init) 0) @ quote
            @ '': '' @ ''hello'') (run [ClickStart] init)"
    using a(2) b(1) onmessage_pong_or_forward [of "''hello''" 9 "run [ClickStart] init" 0 5 "[]"]
    by blast
  have 3: "dc_onmessage (Text (''pong '' @ decimal 5)) 9 init = init"
    using c onmessage_pong_or_forward [of "''pong 5''" 9 init 0 5 "[]"] by blast
  have 4: "step (ChannelMessage 0 (Text ''hello'') 9) ?s2 =
      log (''Message from DataChannel '' @ quote @ label (dcs ?s2 0) @ quote @ '': '' @ ''hello'') ?s2"
    using a(2) o(1,2)
      onmessage_pong_or_forward [of "''hello''" 9 init 0 5 "[ClickStart, ChannelOpened 0]"]
    by presburger
  have 5: "logs (dc_onmessage (Text ''hello'') 9 (run [ClickStart] init))
       = logs (run [ClickStart] init) @ [''Message from DataChannel '' @ quote @ ''chat'' @ quote @ '': hello'']"
    unfolding 2 b(2) by (simp add: log_def)
  have 6: "logs (step (ChannelMessage 0 (Text ''hello'') 9) ?s2)
       = logs ?s2 @ [''Message from DataChannel '' @ quote @ ''chat'' @ quote @ '': hello'']"
    unfolding 4 o(3) by (simp add: log_def)
  have 7: "roundtrip 9 (''pong '' @ decimal 5) = Num (int 9 - int 5)"
    using n onmessage_pong_or_forward [of "''pong 5''" 9 init 0 5 "[]"] by blast
  have 8: "roundtrip 9 (''pong '' @ decimal 5) = Num 4"
    unfolding 7 by simp
  show ?thesis using a b(1) c n o(1,2) 1 3 5 6 8 by blast
qed

end
